theory Spec2Isabelle
  imports Main "HOL-Library.AList"
begin

section \<open>JavaScript values\<close>

text \<open>
  Configuration objects are JSON-like JavaScript values.  An object is the list of its own
  enumerable properties in \<open>Object.keys\<close> order (keys pairwise different, none of them
  \<open>__proto__\<close>); an array is the list of its elements (no holes).  Numbers are integers
  and strings are byte strings.  \<open>JFun\<close> stands for a built-in function object, named by
  its global name; the code can come by one only when it reads a member that the table
  \<open>RULE_SEVERITY\<close> inherits from \<open>Object.prototype\<close>.

  Property reads see own properties (and \<open>length\<close> and the indices of arrays and
  strings).  Apart from \<open>RULE_SEVERITY\<close>, whose inherited members are modelled, the only
  reads under a key that the data chooses are \<open>target[key]\<close> in \<open>deepmerge\<close>; a member
  inherited there would be a built-in function, which \<open>deepmerge\<close> treats as it treats
  a missing value (it is not an array, and as a merge target it contributes no key).
\<close>

datatype jsval =
    JUndefined
  | JNull
  | JBool bool
  | JNum int
  | JStr string
  | JFun string
  | JArr "jsval list"
  | JObj "(string \<times> jsval) list"

text \<open>
  What a call can throw: a JavaScript \<open>TypeError\<close> (a property read on \<open>undefined\<close> or
  \<open>null\<close>, a call of something that is no function, a glob pattern that is no string),
  or the error \<open>no-config-found\<close> of \<open>getLocalConfigHierarchy\<close> with its message data
  (the directory and the files examined).  \<open>IllTyped\<close> marks a run in which the field
  \<open>baseDirectory\<close> of a config source is neither a string nor missing, which no producer
  of config sources does; JavaScript would go on with coerced values there, which this
  development does not follow.
\<close>

datatype error =
    TypeError
  | NoConfigFound string "string list"
  | IllTyped

section \<open>The JavaScript runtime\<close>

text \<open>\<open>typeof v\<close>, the truth value of \<open>v\<close> in a condition, and \<open>Array.isArray(v)\<close>.\<close>

fun js_typeof :: "jsval \<Rightarrow> string" where
  "js_typeof JUndefined = ''undefined''"
| "js_typeof JNull = ''object''"
| "js_typeof (JBool b) = ''boolean''"
| "js_typeof (JNum n) = ''number''"
| "js_typeof (JStr s) = ''string''"
| "js_typeof (JFun f) = ''function''"
| "js_typeof (JArr xs) = ''object''"
| "js_typeof (JObj kvs) = ''object''"

fun truthy :: "jsval \<Rightarrow> bool" where
  "truthy JUndefined = False"
| "truthy JNull = False"
| "truthy (JBool b) = b"
| "truthy (JNum n) = (n \<noteq> 0)"
| "truthy (JStr s) = (s \<noteq> [])"
| "truthy (JFun f) = True"
| "truthy (JArr xs) = True"
| "truthy (JObj kvs) = True"

fun isArray :: "jsval \<Rightarrow> bool" where
  "isArray (JArr xs) = True"
| "isArray v = False"

text \<open>\<open>a || b\<close>.\<close>

definition or_else :: "jsval \<Rightarrow> jsval \<Rightarrow> jsval" where
  "or_else a b = (if truthy a then a else b)"

text \<open>The decimal numeral of a number, as \<open>String(n)\<close> writes it.\<close>

definition digit_char :: "nat \<Rightarrow> char" where
  "digit_char d = ''0123456789'' ! d"

function string_of_nat :: "nat \<Rightarrow> string" where
  "string_of_nat n =
     (if n < 10 then [digit_char n] else string_of_nat (n div 10) @ [digit_char (n mod 10)])"
  by pat_completeness auto
termination
  by (relation "measure id") auto

declare string_of_nat.simps [simp del]

definition string_of_int :: "int \<Rightarrow> string" where
  "string_of_int n =
     (if n < 0 then CHR ''-'' # string_of_nat (nat (- n)) else string_of_nat (nat n))"

text \<open>
  Own properties.  \<open>own kvs k\<close> reads key \<open>k\<close> of an object with the properties
  \<open>kvs\<close>; a missing key reads as \<open>undefined\<close>.  The own enumerable properties of an
  array are its indices, those of a string its characters.
\<close>

definition own :: "(string \<times> jsval) list \<Rightarrow> string \<Rightarrow> jsval" where
  "own kvs k = (case map_of kvs k of Some v \<Rightarrow> v | None \<Rightarrow> JUndefined)"

definition index_entries :: "jsval list \<Rightarrow> (string \<times> jsval) list" where
  "index_entries xs = zip (map string_of_nat [0..<length xs]) xs"

definition chars_of :: "string \<Rightarrow> jsval list" where
  "chars_of s = map (\<lambda>c. JStr [c]) s"

text \<open>
  \<open>v[k]\<close> and \<open>v.k\<close> for a string key: \<open>js_prop\<close> where \<open>v\<close> is known to be neither
  \<open>undefined\<close> nor \<open>null\<close> (it was tested in a condition), \<open>js_get\<close> where the
  read can throw.  \<open>js_index v i\<close> is \<open>v[i]\<close> for a number \<open>i\<close>.
\<close>

fun js_prop :: "jsval \<Rightarrow> string \<Rightarrow> jsval" where
  "js_prop (JObj kvs) k = own kvs k"
| "js_prop (JArr xs) k =
     (if k = ''length'' then JNum (int (length xs)) else own (index_entries xs) k)"
| "js_prop (JStr s) k =
     (if k = ''length'' then JNum (int (length s)) else own (index_entries (chars_of s)) k)"
| "js_prop v k = JUndefined"

definition js_get :: "jsval \<Rightarrow> string \<Rightarrow> error + jsval" where
  "js_get v k = (if v = JUndefined \<or> v = JNull then Inl TypeError else Inr (js_prop v k))"

fun js_index :: "jsval \<Rightarrow> nat \<Rightarrow> jsval" where
  "js_index (JArr xs) i = (if i < length xs then xs ! i else JUndefined)"
| "js_index (JObj kvs) i = own kvs (string_of_nat i)"
| "js_index (JStr s) i = (if i < length s then JStr [s ! i] else JUndefined)"
| "js_index v i = JUndefined"

text \<open>
  \<open>Object.keys(v)\<close>, each key with the value \<open>v[key]\<close>; it throws on \<open>undefined\<close> and
  \<open>null\<close>.
\<close>

fun js_entries :: "jsval \<Rightarrow> error + (string \<times> jsval) list" where
  "js_entries JUndefined = Inl TypeError"
| "js_entries JNull = Inl TypeError"
| "js_entries (JObj kvs) = Inr kvs"
| "js_entries (JArr xs) = Inr (index_entries xs)"
| "js_entries (JStr s) = Inr (index_entries (chars_of s))"
| "js_entries v = Inr []"

text \<open>
  \<open>String(v)\<close> and \<open>xs.join(",")\<close>: in a join, \<open>undefined\<close> and \<open>null\<close> are written
  as the empty string.
\<close>

fun intercalate :: "string \<Rightarrow> string list \<Rightarrow> string" where
  "intercalate sep [] = []"
| "intercalate sep [x] = x"
| "intercalate sep (x # y # ys) = x @ sep @ intercalate sep (y # ys)"

fun js_toString :: "jsval \<Rightarrow> string" where
  "js_toString JUndefined = ''undefined''"
| "js_toString JNull = ''null''"
| "js_toString (JBool b) = (if b then ''true'' else ''false'')"
| "js_toString (JNum n) = string_of_int n"
| "js_toString (JStr s) = s"
| "js_toString (JFun f) = ''function '' @ f @ ''() { [native code] }''"
| "js_toString (JArr xs) =
     intercalate '',''
       (map (\<lambda>x. if x = JUndefined \<or> x = JNull then [] else js_toString x) xs)"
| "js_toString (JObj kvs) = ''[object Object]''"

definition js_join :: "jsval list \<Rightarrow> string" where
  "js_join xs = js_toString (JArr xs)"

text \<open>
  \<open>dst[i] = e\<close> on an array: an index past the end extends the array (the slots between
  read as \<open>undefined\<close>).
\<close>

definition arr_set :: "jsval list \<Rightarrow> nat \<Rightarrow> jsval \<Rightarrow> jsval list" where
  "arr_set dst i e =
     (if i < length dst then dst[i := e]
      else dst @ replicate (i - length dst) JUndefined @ [e])"

text \<open>
  \<open>x.concat(y)\<close>: an array appends the elements of an array \<open>y\<close>, or \<open>y\<close> itself; a
  string appends \<open>String(y)\<close>; no other value has a method \<open>concat\<close>.
\<close>

fun js_concat :: "jsval \<Rightarrow> jsval \<Rightarrow> error + jsval" where
  "js_concat (JArr xs) y = Inr (JArr (xs @ (case y of JArr ys \<Rightarrow> ys | _ \<Rightarrow> [y])))"
| "js_concat (JStr s) y = Inr (JStr (s @ js_toString y))"
| "js_concat x y = Inl TypeError"

text \<open>\<open>delete v.k\<close>.\<close>

fun js_delete :: "jsval \<Rightarrow> string \<Rightarrow> jsval" where
  "js_delete (JObj kvs) k = JObj (AList.delete k kvs)"
| "js_delete v k = v"

text \<open>\<open>s.toLowerCase()\<close>, on the letters A to Z.\<close>

definition lower_char :: "char \<Rightarrow> char" where
  "lower_char c =
     (case map_of (zip ''ABCDEFGHIJKLMNOPQRSTUVWXYZ'' ''abcdefghijklmnopqrstuvwxyz'') c of
        Some l \<Rightarrow> l
      | None \<Rightarrow> c)"

definition toLowerCase :: "string \<Rightarrow> string" where
  "toLowerCase s = map lower_char s"

text \<open>Running one step after another, stopping at the first error.\<close>

definition bind :: "error + 'a \<Rightarrow> ('a \<Rightarrow> error + 'b) \<Rightarrow> error + 'b" where
  "bind m f = (case m of Inl err \<Rightarrow> Inl err | Inr x \<Rightarrow> f x)"

section \<open>lib/config/config-cache.js\<close>

text \<open>
  \<open>hash(vector)\<close> is \<open>vector ? vector.join(",") : ""\<close>.  Every array is true in a
  condition, so a vector hashes to its join; the one other argument the code passes is the
  empty string (the constructor of \<open>Config\<close>, with the base config's \<open>filePath\<close>),
  which hashes to the empty string: that call is written with the key \<open>''''\<close> below.
\<close>

definition hash :: "jsval list \<Rightarrow> string" where
  "hash vector = js_join vector"

text \<open>
  The four tables of \<open>ConfigCache\<close>.  Each is a JavaScript \<open>Map\<close> keyed by strings
  (a path, a directory, or the hash of a vector).  \<open>Map.get\<close> on a missing key returns
  \<open>undefined\<close>.
\<close>

record ConfigCache =
  filePathCache :: "string \<Rightarrow> jsval option"
  localHierarchyCache :: "string \<Rightarrow> jsval list option"
  mergedVectorCache :: "string \<Rightarrow> jsval option"
  mergedCache :: "string \<Rightarrow> jsval option"

definition map_get :: "(string \<Rightarrow> jsval option) \<Rightarrow> string \<Rightarrow> jsval" where
  "map_get m k = (case m k of Some v \<Rightarrow> v | None \<Rightarrow> JUndefined)"

definition init :: ConfigCache where
  "init = \<lparr> filePathCache = Map.empty, localHierarchyCache = Map.empty,
            mergedVectorCache = Map.empty, mergedCache = Map.empty \<rparr>"

text \<open>
  \<open>getConfig\<close> and \<open>setConfig\<close> of the cache (the class \<open>Config\<close> has a method
  \<open>getConfig\<close> of its own, below).
\<close>

definition cache_getConfig :: "ConfigCache \<Rightarrow> string \<Rightarrow> jsval" where
  "cache_getConfig c filePath = map_get (filePathCache c) filePath"

definition cache_setConfig :: "ConfigCache \<Rightarrow> string \<Rightarrow> jsval \<Rightarrow> ConfigCache" where
  "cache_setConfig c filePath config = c\<lparr>filePathCache := (filePathCache c)(filePath \<mapsto> config)\<rparr>"

definition getHierarchyLocalConfigs :: "ConfigCache \<Rightarrow> string \<Rightarrow> jsval list option" where
  "getHierarchyLocalConfigs c directory = localHierarchyCache c directory"

text \<open>
  \<open>Array.prototype.slice(0, end)\<close>: a negative \<open>end\<close> counts from the end of the
  array, and the bounds are clamped to the array.
\<close>

definition js_slice0 :: "'a list \<Rightarrow> int \<Rightarrow> 'a list" where
  "js_slice0 xs e = (if e < 0 then take (nat (int (length xs) + e)) xs else take (nat e) xs)"

text \<open>
  \<open>parentDirectories.forEach((localConfigDirectory, i) => ...)\<close>: the loop over the
  directories with the running index \<open>i\<close>; each round stores
  \<open>parentConfigs.slice(0, parentConfigs.length - i)\<close>.
\<close>

fun setHierarchyLocalConfigs_from ::
  "nat \<Rightarrow> ConfigCache \<Rightarrow> string list \<Rightarrow> jsval list \<Rightarrow> ConfigCache" where
  "setHierarchyLocalConfigs_from i c [] parentConfigs = c"
| "setHierarchyLocalConfigs_from i c (localConfigDirectory # rest) parentConfigs =
     (let directoryParentConfigs =
            js_slice0 parentConfigs (int (length parentConfigs) - int i)
      in setHierarchyLocalConfigs_from (Suc i)
           (c\<lparr>localHierarchyCache :=
               (localHierarchyCache c)(localConfigDirectory \<mapsto> directoryParentConfigs)\<rparr>)
           rest parentConfigs)"

definition setHierarchyLocalConfigs ::
  "ConfigCache \<Rightarrow> string list \<Rightarrow> jsval list \<Rightarrow> ConfigCache" where
  "setHierarchyLocalConfigs c parentDirectories parentConfigs =
     setHierarchyLocalConfigs_from 0 c parentDirectories parentConfigs"

definition getMergedVectorConfig :: "ConfigCache \<Rightarrow> jsval list \<Rightarrow> jsval" where
  "getMergedVectorConfig c vector = map_get (mergedVectorCache c) (hash vector)"

definition setMergedVectorConfig :: "ConfigCache \<Rightarrow> jsval list \<Rightarrow> jsval \<Rightarrow> ConfigCache" where
  "setMergedVectorConfig c vector config =
     c\<lparr>mergedVectorCache := (mergedVectorCache c)(hash vector \<mapsto> config)\<rparr>"

definition getMergedConfig :: "ConfigCache \<Rightarrow> jsval list \<Rightarrow> jsval" where
  "getMergedConfig c vector = map_get (mergedCache c) (hash vector)"

definition setMergedConfig :: "ConfigCache \<Rightarrow> jsval list \<Rightarrow> jsval \<Rightarrow> ConfigCache" where
  "setMergedConfig c vector config =
     c\<lparr>mergedCache := (mergedCache c)(hash vector \<mapsto> config)\<rparr>"

section \<open>lib/config/config-ops.js: deepmerge\<close>

text \<open>
  The recursion of \<open>deepmerge\<close> follows the source value: a call on a member of \<open>src\<close>
  is a call on a smaller value.  The two weights below count the members of a value that
  are arrays or objects; the termination proof orders the calls by them.
\<close>

fun composite_weight :: "jsval \<Rightarrow> nat" where
  "composite_weight (JArr xs) = Suc (size (JArr xs))"
| "composite_weight (JObj kvs) = Suc (size (JObj kvs))"
| "composite_weight v = 0"

fun members_weight :: "jsval \<Rightarrow> nat" where
  "members_weight (JArr xs) = sum_list (map composite_weight xs)"
| "members_weight (JObj kvs) = sum_list (map (composite_weight \<circ> snd) kvs)"
| "members_weight v = 0"

lemma composite_weight_le: "composite_weight v \<le> Suc (size v)"
  by (cases v) auto

lemma members_weight_lt: "isArray v \<or> (\<exists>kvs. v = JObj kvs) \<Longrightarrow> members_weight v < size v"
proof (cases v)
  case (JArr xs)
  have "sum_list (map composite_weight xs) \<le> size_list size xs"
    by (induction xs) (auto intro: le_trans[OF add_mono[OF composite_weight_le]] simp: )
  with JArr show ?thesis by simp
next
  case (JObj kvs)
  have "sum_list (map (composite_weight \<circ> snd) kvs) \<le> size_list (size_prod (\<lambda>x. 0) size) kvs"
  proof (induction kvs)
    case Nil then show ?case by simp
  next
    case (Cons p kvs)
    obtain k w where "p = (k, w)" by (cases p)
    with Cons composite_weight_le[of w] show ?case by simp
  qed
  with JObj show ?thesis by simp
qed auto


lemma size_lt_composite_weight:
  "js_typeof v = ''object'' \<Longrightarrow> v \<noteq> JNull \<Longrightarrow> size v < composite_weight v"
  by (cases v) auto

lemma scalar_weight:
  "js_typeof v \<noteq> ''object'' \<Longrightarrow> size v = 0 \<and> composite_weight v = 0"
  by (cases v) auto

lemma own_weight: "composite_weight (own kvs k) \<le> sum_list (map (composite_weight \<circ> snd) kvs)"
proof (cases "map_of kvs k")
  case None
  then show ?thesis by (simp add: own_def)
next
  case (Some v)
  then have "(k, v) \<in> set kvs" by (rule map_of_SomeD)
  then have "composite_weight v \<in> set (map (composite_weight \<circ> snd) kvs)" by force
  then have "composite_weight v \<le> sum_list (map (composite_weight \<circ> snd) kvs)"
    by (simp add: member_le_sum_list)
  with Some show ?thesis by (simp add: own_def)
qed

lemma js_index_weight: "composite_weight (js_index src i) \<le> members_weight src"
proof (cases src)
  case (JArr xs)
  show ?thesis
  proof (cases "i < length xs")
    case True
    then have "composite_weight (xs ! i) \<in> set (map composite_weight xs)" by simp
    then have "composite_weight (xs ! i) \<le> sum_list (map composite_weight xs)"
      by (simp add: member_le_sum_list)
    with JArr True show ?thesis by simp
  next
    case False
    with JArr show ?thesis by simp
  qed
next
  case (JObj kvs)
  then show ?thesis by (simp add: own_weight)
qed auto

lemma index_entries_snd: "map snd (index_entries xs) = xs"
  by (simp add: index_entries_def)

lemma chars_of_weight: "sum_list (map composite_weight (chars_of s)) = 0"
  by (induction s) (auto simp: chars_of_def)

lemma js_entries_weight:
  "js_entries src = Inr b \<Longrightarrow> sum_list (map (composite_weight \<circ> snd) b) = members_weight src"
proof (cases src)
  case (JArr xs)
  assume "js_entries src = Inr b"
  with JArr have "map (composite_weight \<circ> snd) b = map composite_weight xs"
    using index_entries_snd[of xs] by (auto simp flip: map_map)
  with JArr show ?thesis by simp
next
  case (JStr s)
  assume "js_entries src = Inr b"
  with JStr have "map (composite_weight \<circ> snd) b = map composite_weight (chars_of s)"
    using index_entries_snd[of "chars_of s"] by (auto simp flip: map_map)
  with JStr show ?thesis by (simp add: chars_of_weight)
qed auto

lemma lex3I:
  fixes f :: "'a \<Rightarrow> nat \<times> nat \<times> nat"
  assumes "fst (f x) < fst (f y)
     \<or> (fst (f x) \<le> fst (f y) \<and> fst (snd (f x)) < fst (snd (f y)))
     \<or> (fst (f x) \<le> fst (f y) \<and> fst (snd (f x)) \<le> fst (snd (f y))
          \<and> snd (snd (f x)) < snd (snd (f y)))"
  shows "(x, y) \<in> inv_image (less_than <*lex*> less_than <*lex*> less_than) f"
  using assms by (cases "f x"; cases "f y") auto

definition merge_tag :: "jsval \<Rightarrow> jsval \<Rightarrow> nat" where
  "merge_tag target src = (if src = JNull then 0 else if isArray src \<or> isArray target then 2 else 4)"

function deepmerge :: "jsval \<Rightarrow> jsval \<Rightarrow> bool \<Rightarrow> bool \<Rightarrow> error + jsval"
  and merge_array_loop ::
    "jsval \<Rightarrow> jsval \<Rightarrow> nat \<Rightarrow> nat \<Rightarrow> jsval list \<Rightarrow> bool \<Rightarrow> bool \<Rightarrow> error + jsval list"
  and merge_keys ::
    "jsval \<Rightarrow> (string \<times> jsval) list \<Rightarrow> (string \<times> jsval) list \<Rightarrow> bool \<Rightarrow> bool
       \<Rightarrow> error + (string \<times> jsval) list"
where
  "deepmerge target src combine isRule =
     (if isArray src \<or> isArray target then
        (let target' = or_else target (JArr []);
             dst = (case src of
                      JArr es \<Rightarrow> if isRule \<and> 1 < length es then es
                                 else (case target' of JArr ts \<Rightarrow> ts | _ \<Rightarrow> [target'])
                    | _ \<Rightarrow> (case target' of JArr ts \<Rightarrow> ts | _ \<Rightarrow> [target']));
             src' = (if js_typeof src \<noteq> ''object'' \<and> \<not> isArray src then JArr [src] else src)
         in case js_entries src' of
              Inl err \<Rightarrow> Inl err
            | Inr keys \<Rightarrow>
                (case merge_array_loop target' src' 0 (length keys) dst combine isRule of
                   Inl err \<Rightarrow> Inl err
                 | Inr dst' \<Rightarrow> Inr (JArr dst')))
      else
        (let dst = (case target of JObj tkvs \<Rightarrow> tkvs | _ \<Rightarrow> [])
         in case js_entries src of
              Inl err \<Rightarrow> Inl err
            | Inr entries \<Rightarrow>
                (case merge_keys target entries dst combine isRule of
                   Inl err \<Rightarrow> Inl err
                 | Inr dst' \<Rightarrow> Inr (JObj dst'))))"
| "merge_array_loop target src i n dst combine isRule =
     (if n \<le> i then Inr dst
      else
        (let e = js_index src i in
         if js_typeof (js_index (JArr dst) i) = ''undefined'' then
           merge_array_loop target src (Suc i) n (arr_set dst i e) combine isRule
         else if js_typeof e = ''object'' then
           (if isRule then
              merge_array_loop target src (Suc i) n (arr_set dst i e) combine isRule
            else
              (case deepmerge (js_index target i) e combine isRule of
                 Inl err \<Rightarrow> Inl err
               | Inr m \<Rightarrow> merge_array_loop target src (Suc i) n (arr_set dst i m) combine isRule))
         else if \<not> combine then
           merge_array_loop target src (Suc i) n (arr_set dst i e) combine isRule
         else if e \<notin> set dst then
           merge_array_loop target src (Suc i) n (dst @ [e]) combine isRule
         else
           merge_array_loop target src (Suc i) n dst combine isRule))"
| "merge_keys target [] dst combine isRule = Inr dst"
| "merge_keys target ((key, v) # rest) dst combine isRule =
     (case js_get target key of
        Inl err \<Rightarrow> Inl err
      | Inr t \<Rightarrow>
          if key = ''overrides'' then
            (case js_concat (or_else t (JArr [])) (or_else v (JArr [])) of
               Inl err \<Rightarrow> Inl err
             | Inr m \<Rightarrow> merge_keys target rest (AList.update key m dst) combine isRule)
          else if isArray v \<or> isArray t then
            (case deepmerge t v (key = ''plugins'') isRule of
               Inl err \<Rightarrow> Inl err
             | Inr m \<Rightarrow> merge_keys target rest (AList.update key m dst) combine isRule)
          else if js_typeof v \<noteq> ''object'' \<or> \<not> truthy v \<or> key = ''exported'' \<or> key = ''astGlobals'' then
            merge_keys target rest (AList.update key v dst) combine isRule
          else
            (case deepmerge (or_else t (JObj [])) v combine (key = ''rules'') of
               Inl err \<Rightarrow> Inl err
             | Inr m \<Rightarrow> merge_keys target rest (AList.update key m dst) combine isRule))"
  by pat_completeness auto

termination
proof (relation "inv_image (less_than <*lex*> less_than <*lex*> less_than)
     (\<lambda>x. case x of
        Inl (target, src, combine, isRule) \<Rightarrow> (size src, merge_tag target src, 0)
      | Inr (Inl (target, src, i, n, dst, combine, isRule)) \<Rightarrow> (members_weight src, 1, n - i)
      | Inr (Inr (target, entries, dst, combine, isRule)) \<Rightarrow>
          (sum_list (map (composite_weight \<circ> snd) entries), 3, length entries))", goal_cases)
  case 1
  show ?case by (intro wf_inv_image wf_lex_prod wf_less_than)
next
  case (2 target src combine isRule x xa xb b)
  show ?case
  proof (cases "js_typeof src \<noteq> ''object'' \<and> \<not> isArray src")
    case True
    then have "src \<noteq> JNull" by (cases src) simp_all
    with True 2(1) scalar_weight[of src] 2(4) show ?thesis
      by (intro lex3I) (simp add: merge_tag_def)
  next
    case False
    with 2(4,5) have "isArray src \<or> (\<exists>kvs. src = JObj kvs)"
      by (cases src) auto
    from members_weight_lt[OF this] False 2(4) show ?thesis
      by (intro lex3I) auto
  qed
next
  case (3 target src combine isRule x b)
  from 3(3) have w: "sum_list (map (composite_weight \<circ> snd) b) = members_weight src"
    by (rule js_entries_weight)
  show ?case
  proof (cases "\<exists>kvs. src = JObj kvs")
    case True
    then have "members_weight src < size src" by (simp add: members_weight_lt)
    with w show ?thesis by (intro lex3I) simp
  next
    case False
    with 3(1,3) have "members_weight src = 0" "size src = 0" "merge_tag target src = 4"
      by (cases src; simp add: merge_tag_def)+
    with w show ?thesis by (intro lex3I) simp
  qed
next
  case (6 target src i n dst combine isRule x)
  show ?case
  proof (cases "x = JNull")
    case True
    then show ?thesis by (intro lex3I) (simp add: merge_tag_def)
  next
    case False
    with 6(4) have "size x < composite_weight x" by (simp add: size_lt_composite_weight)
    also have "composite_weight x \<le> members_weight src"
      unfolding 6(2) by (rule js_index_weight)
    finally show ?thesis by (intro lex3I) simp
  qed
next
  case (12 target key v rest dst combine isRule b)
  show ?case
  proof (cases "js_typeof v = ''object''")
    case True
    show ?thesis
    proof (cases "v = JNull")
      case True
      then show ?thesis by (intro lex3I) (simp add: merge_tag_def)
    next
      case False
      with \<open>js_typeof v = ''object''\<close> have "size v < composite_weight v"
        by (simp add: size_lt_composite_weight)
      then show ?thesis by (intro lex3I) simp
    qed
  next
    case False
    then have "\<not> isArray v" "v \<noteq> JNull" by (cases v; simp)+
    with 12(3) False scalar_weight[of v] show ?thesis
      by (intro lex3I) (simp add: merge_tag_def)
  qed
next
  case (15 target key v rest dst combine isRule b)
  then have "js_typeof v = ''object''" "v \<noteq> JNull" by (cases v; simp)+
  then have "size v < composite_weight v" by (simp add: size_lt_composite_weight)
  then show ?case by (intro lex3I) simp
qed (intro lex3I; simp)+

declare deepmerge.simps [simp del] merge_array_loop.simps [simp del]

section \<open>Collaborators\<close>

text \<open>
  Code that the resolver calls and that is not among the source files: modules of the
  repository (\<open>environments\<close>, \<open>config-file\<close>, \<open>file-finder\<close>) and libraries
  (\<open>minimatch\<close>, \<open>path\<close>, \<open>path-is-inside\<close>, \<open>user-home\<close>).  Each is a
  parameter of the development, a field of \<open>world\<close>:
  \<^item> \<open>Environments_get name\<close> is \<open>Environments.get(name)\<close>;
  \<^item> \<open>minimatch path pattern\<close> is \<open>minimatch(path, pattern, { matchBase: true })\<close> for
    a pattern that is a string (for any other pattern \<open>minimatch\<close> throws a
    \<open>TypeError\<close>, which \<open>pathMatchesGlobs\<close> below writes out);
  \<^item> \<open>findAllInDirectoryAndParents directory\<close> is the list of config files the
    \<open>FileFinder\<close> of \<open>findLocalConfigFiles\<close> finds, nearest first;
  \<^item> \<open>getFilenameForDirectory directory\<close> is \<open>ConfigFile.getFilenameForDirectory\<close>,
    \<open>None\<close> where it returns \<open>null\<close>;
  \<^item> \<open>load_file path\<close> is the parsed config source of the file, or a value that is
    false in a condition for an empty file;
  \<^item> \<open>loadObject\<close> is \<open>ConfigFile.loadObject\<close>;
  \<^item> \<open>path_dirname\<close> is \<open>path.dirname\<close> and \<open>pathIsInside\<close> is
    \<open>pathIsInside\<close>;
  \<^item> \<open>PERSONAL_CONFIG_DIR\<close> is \<open>userHome || null\<close>, \<open>None\<close> for \<open>null\<close>;
  \<^item> \<open>resolve_useConfig cwd name\<close> is the path the constructor of \<open>Config\<close> loads
    for the option \<open>configFile\<close> (by \<open>isResolvable\<close> and \<open>path.resolve\<close>).
\<close>

record world =
  Environments_get :: "string \<Rightarrow> jsval"
  minimatch :: "string \<Rightarrow> string \<Rightarrow> bool"
  findAllInDirectoryAndParents :: "string \<Rightarrow> string list"
  getFilenameForDirectory :: "string \<Rightarrow> string option"
  load_file :: "string \<Rightarrow> jsval"
  loadObject :: "jsval \<Rightarrow> jsval"
  path_dirname :: "string \<Rightarrow> string"
  pathIsInside :: "string \<Rightarrow> string \<Rightarrow> bool"
  PERSONAL_CONFIG_DIR :: "string option"
  resolve_useConfig :: "string \<Rightarrow> string \<Rightarrow> string"

section \<open>lib/config/config-ops.js\<close>

definition merge :: "jsval \<Rightarrow> jsval \<Rightarrow> error + jsval" where
  "merge target src = deepmerge target src False False"

subsection \<open>Severities\<close>

text \<open>
  \<open>RULE_SEVERITY\<close> is the plain object that the \<open>reduce\<close> builds from
  \<open>RULE_SEVERITY_STRINGS\<close>: its own properties are listed below.  A read
  \<open>RULE_SEVERITY[key]\<close> of a key that is not its own goes to \<open>Object.prototype\<close>, whose
  members are functions, but for \<open>__proto__\<close>, which reads as the prototype itself (an
  object with no enumerable property).  \<open>VALID_SEVERITIES\<close> is the list the source gives.
\<close>

definition RULE_SEVERITY_STRINGS :: "string list" where
  "RULE_SEVERITY_STRINGS = [''off'', ''warn'', ''error'']"

definition RULE_SEVERITY :: "(string \<times> jsval) list" where
  "RULE_SEVERITY = [(''off'', JNum 0), (''warn'', JNum 1), (''error'', JNum 2)]"

definition VALID_SEVERITIES :: "jsval list" where
  "VALID_SEVERITIES = [JNum 0, JNum 1, JNum 2, JStr ''off'', JStr ''warn'', JStr ''error'']"

definition Object_prototype_get :: "string \<Rightarrow> jsval" where
  "Object_prototype_get key =
     (if key = ''constructor'' then JFun ''Object''
      else if key = ''__proto__'' then JObj []
      else if key \<in> set [''hasOwnProperty'', ''isPrototypeOf'', ''propertyIsEnumerable'',
                         ''toLocaleString'', ''toString'', ''valueOf'', ''__defineGetter__'',
                         ''__defineSetter__'', ''__lookupGetter__'', ''__lookupSetter__'']
      then JFun key
      else JUndefined)"

definition RULE_SEVERITY_get :: "string \<Rightarrow> jsval" where
  "RULE_SEVERITY_get key =
     (case map_of RULE_SEVERITY key of Some v \<Rightarrow> v | None \<Rightarrow> Object_prototype_get key)"

text \<open>\<open>RULE_SEVERITY[s.toLowerCase()] || 0\<close>.\<close>

definition severity_number :: "string \<Rightarrow> jsval" where
  "severity_number s = or_else (RULE_SEVERITY_get (toLowerCase s)) (JNum 0)"

text \<open>
  \<open>RULE_SEVERITY_STRINGS[n] || RULE_SEVERITY_STRINGS[0]\<close> for a number \<open>n\<close>: the array
  has the indices 0, 1 and 2.
\<close>

definition severity_string :: "int \<Rightarrow> jsval" where
  "severity_string n =
     or_else (if 0 \<le> n then js_index (JArr (map JStr RULE_SEVERITY_STRINGS)) (nat n) else JUndefined)
       (JStr (RULE_SEVERITY_STRINGS ! 0))"

text \<open>
  One round of the loop of \<open>normalize\<close>, as the new value of \<open>config.rules[ruleId]\<close>
  (an array keeps its identity and gets a new first element), and of
  \<open>normalizeToStrings\<close>.
\<close>

fun normalize_rule :: "jsval \<Rightarrow> jsval" where
  "normalize_rule (JStr s) = severity_number s"
| "normalize_rule (JArr (JStr s # options)) = JArr (severity_number s # options)"
| "normalize_rule ruleConfig = ruleConfig"

fun normalizeToStrings_rule :: "jsval \<Rightarrow> jsval" where
  "normalizeToStrings_rule (JNum n) = severity_string n"
| "normalizeToStrings_rule (JArr (JNum n # options)) = JArr (severity_string n # options)"
| "normalizeToStrings_rule ruleConfig = ruleConfig"

text \<open>
  The loop \<open>Object.keys(config.rules).forEach(...)\<close> rewrites the rules in place.  The
  rules of a config are an object (or an array, whose keys are its indices).  A string has
  its characters as keys and every character is a string, so the first round assigns to a
  character of a string, which throws in strict mode.  Any other value that is true in a
  condition has no keys.
\<close>

definition map_rules :: "(jsval \<Rightarrow> jsval) \<Rightarrow> bool \<Rightarrow> jsval \<Rightarrow> error + jsval" where
  "map_rules f assigns_strings config =
     (case js_get config ''rules'' of
        Inl err \<Rightarrow> Inl err
      | Inr rules \<Rightarrow>
          if \<not> truthy rules then Inr config
          else
            (case rules of
               JObj kvs \<Rightarrow>
                 (case config of
                    JObj ckvs \<Rightarrow>
                      Inr (JObj (AList.update ''rules'' (JObj (map (\<lambda>(ruleId, v). (ruleId, f v)) kvs)) ckvs))
                  | _ \<Rightarrow> Inr config)
             | JArr xs \<Rightarrow>
                 (case config of
                    JObj ckvs \<Rightarrow> Inr (JObj (AList.update ''rules'' (JArr (map f xs)) ckvs))
                  | _ \<Rightarrow> Inr config)
             | JStr s \<Rightarrow> if assigns_strings then Inl TypeError else Inr config
             | _ \<Rightarrow> Inr config))"

definition normalize_config :: "jsval \<Rightarrow> error + jsval" where
  "normalize_config config = map_rules normalize_rule True config"

definition normalizeToStrings :: "jsval \<Rightarrow> error + jsval" where
  "normalizeToStrings config = map_rules normalizeToStrings_rule False config"

definition isValidSeverity :: "jsval \<Rightarrow> bool" where
  "isValidSeverity ruleConfig =
     (let severity = (if isArray ruleConfig then js_index ruleConfig 0 else ruleConfig);
          severity' = (case severity of JStr s \<Rightarrow> JStr (toLowerCase s) | _ \<Rightarrow> severity)
      in severity' \<in> set VALID_SEVERITIES)"

subsection \<open>Environments\<close>

definition createEmptyConfig :: jsval where
  "createEmptyConfig =
     JObj [(''globals'', JObj []), (''env'', JObj []), (''rules'', JObj []),
           (''parserOptions'', JObj [])]"

text \<open>
  \<open>Object.assign(target, source)\<close> copies the own enumerable properties of \<open>source\<close>
  (none for \<open>undefined\<close> and \<open>null\<close>); \<open>entries_of v\<close> is \<open>Object.keys(v)\<close> with the
  values, for a \<open>v\<close> that was tested in a condition.
\<close>

definition entries_of :: "jsval \<Rightarrow> (string \<times> jsval) list" where
  "entries_of v = (case js_entries v of Inl err \<Rightarrow> [] | Inr kvs \<Rightarrow> kvs)"

definition object_assign :: "(string \<times> jsval) list \<Rightarrow> jsval \<Rightarrow> (string \<times> jsval) list" where
  "object_assign target source = foldl (\<lambda>dst (k, v). AList.update k v dst) target (entries_of source)"

text \<open>
  The body of the \<open>forEach\<close> in \<open>createEnvironmentConfig\<close>, on the pair
  \<open>(envConfig.globals, envConfig.parserOptions)\<close>.
\<close>

definition add_environment ::
  "world \<Rightarrow> (string \<times> jsval) list \<times> (string \<times> jsval) list \<Rightarrow> string
     \<Rightarrow> (string \<times> jsval) list \<times> (string \<times> jsval) list" where
  "add_environment w acc name =
     (let environment = Environments_get w name in
      if truthy environment then
        (if truthy (js_prop environment ''globals'')
         then object_assign (fst acc) (js_prop environment ''globals'') else fst acc,
         if truthy (js_prop environment ''parserOptions'')
         then object_assign (snd acc) (js_prop environment ''parserOptions'') else snd acc)
      else acc)"

definition createEnvironmentConfig :: "world \<Rightarrow> jsval \<Rightarrow> jsval" where
  "createEnvironmentConfig w env =
     (if truthy env then
        (let names = map fst (filter (\<lambda>(name, v). truthy v) (entries_of env));
             acc = foldl (add_environment w) ([], []) names
         in JObj [(''globals'', JObj (fst acc)), (''env'', env), (''rules'', JObj []),
                  (''parserOptions'', JObj (snd acc))])
      else createEmptyConfig)"

definition applyEnvironments :: "world \<Rightarrow> jsval \<Rightarrow> error + jsval" where
  "applyEnvironments w config =
     (case js_get config ''env'' of
        Inl err \<Rightarrow> Inl err
      | Inr env \<Rightarrow>
          if truthy env \<and> js_typeof env = ''object''
          then merge (createEnvironmentConfig w env) config
          else Inr config)"

subsection \<open>getConfigFromVector\<close>

text \<open>
  The first loop: \<open>subvector\<close> starts as a copy of the vector and loses its last token
  in every round without a hit; \<open>nearestCacheIndex\<close> is one less than its length
  throughout.  The result is the value of \<open>config\<close> after the loop (what the last probe
  returned, \<open>undefined\<close> when no probe ran) and of \<open>nearestCacheIndex\<close>.
\<close>

function probe :: "ConfigCache \<Rightarrow> jsval list \<Rightarrow> jsval \<times> int" where
  "probe c subvector =
     (if subvector = [] then (JUndefined, - 1)
      else
        (let config = getMergedVectorConfig c subvector in
         if truthy config then (config, int (length subvector) - 1)
         else if butlast subvector = [] then (config, - 1)
         else probe c (butlast subvector)))"
  by pat_completeness auto
termination
  by (relation "measure (\<lambda>(c, subvector). length subvector)") auto

declare probe.simps [simp del]

text \<open>
  The search for \<open>parentConfigKey\<close>: from \<open>vector[nearestCacheIndex]\<close> backwards to the
  first token that is a string, ending at \<open>vector[0]\<close> when there is none.
\<close>

fun parentConfigKey :: "jsval list \<Rightarrow> nat \<Rightarrow> jsval" where
  "parentConfigKey vector 0 = js_index (JArr vector) 0"
| "parentConfigKey vector (Suc i) =
     (if js_typeof (js_index (JArr vector) (Suc i)) = ''string''
      then js_index (JArr vector) (Suc i)
      else parentConfigKey vector i)"

text \<open>
  \<open>configCache.getConfig(key)\<close> for a token: the keys of the table are strings, so any
  other token finds nothing.
\<close>

definition getConfig_token :: "ConfigCache \<Rightarrow> jsval \<Rightarrow> jsval" where
  "getConfig_token c key = (case key of JStr p \<Rightarrow> cache_getConfig c p | _ \<Rightarrow> JUndefined)"

text \<open>
  The second loop, over the tokens from \<open>nearestCacheIndex + 1\<close> on.  Every round ends
  with \<open>configCache.setMergedVectorConfig(vector, config)\<close>: the key is the vector of the
  call.
\<close>

definition strip_keys :: "jsval \<Rightarrow> jsval" where
  "strip_keys config =
     (if truthy (js_prop config ''filePath'')
      then js_delete (js_delete config ''filePath'') ''baseDirectory''
      else if truthy (js_prop config ''files'') then js_delete config ''files''
      else config)"

fun fold_tokens ::
  "ConfigCache \<Rightarrow> jsval list \<Rightarrow> jsval list \<Rightarrow> jsval \<Rightarrow> jsval \<Rightarrow> error + jsval \<times> ConfigCache" where
  "fold_tokens c vector [] config subConfigs = Inr (config, c)"
| "fold_tokens c vector (configKey # rest) config subConfigs =
     (case (if js_typeof configKey = ''string''
            then (let shallowConfig = getConfig_token c configKey in
                  case js_get shallowConfig ''overrides'' of
                    Inl err \<Rightarrow> Inl err
                  | Inr overrides \<Rightarrow> Inr (shallowConfig, overrides))
            else (case js_get subConfigs (js_toString configKey) of
                    Inl err \<Rightarrow> Inl err
                  | Inr shallowConfig \<Rightarrow> Inr (shallowConfig, subConfigs))) of
        Inl err \<Rightarrow> Inl err
      | Inr (shallowConfig, subConfigs') \<Rightarrow>
          (case merge config shallowConfig of
             Inl err \<Rightarrow> Inl err
           | Inr merged \<Rightarrow>
               (let config' = strip_keys merged
                in fold_tokens (setMergedVectorConfig c vector config') vector rest config'
                     subConfigs')))"

definition getConfigFromVector :: "ConfigCache \<Rightarrow> jsval list \<Rightarrow> error + jsval \<times> ConfigCache" where
  "getConfigFromVector c vector =
     (case probe c vector of
        (config, nearestCacheIndex) \<Rightarrow>
          if truthy config then
            (if nearestCacheIndex = int (length vector) - 1 then Inr (config, c)
             else
               (case (if js_typeof (js_index (JArr vector) (nat (nearestCacheIndex + 1))) = ''number''
                      then js_get (getConfig_token c (parentConfigKey vector (nat nearestCacheIndex)))
                             ''overrides''
                      else Inr JUndefined) of
                  Inl err \<Rightarrow> Inl err
                | Inr subConfigs \<Rightarrow>
                    fold_tokens c vector (drop (nat (nearestCacheIndex + 1)) vector) config subConfigs))
          else fold_tokens c vector (drop (nat (nearestCacheIndex + 1)) vector) (JObj []) JUndefined)"

subsection \<open>pathMatchesGlobs\<close>

text \<open>
  \<open>patterns.every(pattern => minimatch(filePath, pattern, { matchBase: true }))\<close>:
  \<open>every\<close> stops at the first pattern that does not match, and \<open>minimatch\<close> throws on a
  pattern that is not a string.
\<close>

fun every_pattern :: "world \<Rightarrow> string \<Rightarrow> jsval list \<Rightarrow> error + bool" where
  "every_pattern w filePath [] = Inr True"
| "every_pattern w filePath (pattern # rest) =
     (case pattern of
        JStr p \<Rightarrow> if minimatch w filePath p then every_pattern w filePath rest else Inr False
      | _ \<Rightarrow> Inl TypeError)"

definition pathMatchesGlobs :: "world \<Rightarrow> string \<Rightarrow> jsval \<Rightarrow> error + bool" where
  "pathMatchesGlobs w filePath patterns =
     every_pattern w filePath (case patterns of JArr ps \<Rightarrow> ps | _ \<Rightarrow> [patterns])"

section \<open>lib/config.js\<close>

text \<open>
  The options of a run, as the constructor reads them: \<open>envs\<close> and \<open>globals\<close> are the
  lists of names given (empty when the option is absent), \<open>configFile\<close> is absent as
  \<open>None\<close>, and the other options are the JavaScript values passed (\<open>undefined\<close> when
  absent).
\<close>

record options =
  options_baseConfig :: jsval
  options_cwd :: string
  options_useEslintrc :: jsval
  options_envs :: "string list"
  options_globals :: "string list"
  options_configFile :: "string option"
  options_plugins :: jsval
  options_rules :: jsval
  options_parser :: jsval
  options_parserOptions :: jsval

text \<open>
  The fields of a \<open>Config\<close> that the resolver reads after construction.
  \<open>personalConfig\<close> is \<open>None\<close> until \<open>getPersonalConfig\<close> has run once.
\<close>

record Config =
  options :: options
  parser :: jsval
  baseConfig :: jsval
  useEslintrc :: bool
  useSpecificConfig :: jsval
  cliConfig :: jsval
  personalConfig :: "jsval option"

definition hasRules :: "options \<Rightarrow> bool" where
  "hasRules opts = (truthy (options_rules opts) \<and> 0 < length (entries_of (options_rules opts)))"

text \<open>
  Modelled from the spec: \<open>ConfigFile.loadCached\<close>, of \<open>lib/config/config-file.js\<close>,
  which is not among the source files.  The spec (section 6): given a path, it returns a
  parsed config source or a cached previous result for the same path.  The shallow-config
  table of the cache is that cache: \<open>getConfigFromVector\<close> reads from it, under its
  \<open>filePath\<close>, every source that a vector names.
\<close>

definition loadCached :: "world \<Rightarrow> ConfigCache \<Rightarrow> string \<Rightarrow> jsval \<times> ConfigCache" where
  "loadCached w c filePath =
     (let cached = cache_getConfig c filePath in
      if truthy cached then (cached, c)
      else
        (let config = load_file w filePath in
         if truthy config then (config, cache_setConfig c filePath config) else (config, c)))"

text \<open>\<open>def.split(":")\<close>.\<close>

fun split :: "char \<Rightarrow> string \<Rightarrow> string list" where
  "split sep [] = [[]]"
| "split sep (x # xs) =
     (if x = sep then [] # split sep xs
      else (case split sep xs of part # parts \<Rightarrow> (x # part) # parts | [] \<Rightarrow> [[x]]))"

definition SUBCONFIG_SEP :: char where
  "SUBCONFIG_SEP = CHR '':''"

text \<open>
  The constructor.  \<open>Plugins.loadAll\<close> registers the plugins and leaves the resolver's
  state alone.  The base config is an object; the two assignments to it are not followed on
  an array (\<open>IllTyped\<close>).
\<close>

definition build_cliConfig :: "(string \<times> jsval) list \<Rightarrow> jsval" where
  "build_cliConfig cliConfigOptions =
     JObj (foldl (\<lambda>cliConfig (configKey, v). if truthy v then AList.update configKey v cliConfig
                                                  else cliConfig) [] cliConfigOptions)"

definition Config_new :: "world \<Rightarrow> options \<Rightarrow> error + Config \<times> ConfigCache" where
  "Config_new w opts =
     (case (if truthy (options_baseConfig opts)
            then merge (JObj []) (loadObject w (options_baseConfig opts))
            else Inr (JObj [(''rules'', JObj [])])) of
        Inl err \<Rightarrow> Inl err
      | Inr (JObj base) \<Rightarrow>
          (let baseConfig = JObj (AList.update ''baseDirectory'' (JStr (options_cwd opts))
                                   (AList.update ''filePath'' (JStr []) base));
               c0 = cache_setConfig init [] baseConfig;
               c1 = c0\<lparr>mergedVectorCache := (mergedVectorCache c0)([] \<mapsto> baseConfig)\<rparr>;
               env = foldl (\<lambda>envs name. AList.update name (JBool True) envs) [] (options_envs opts);
               globals = foldl (\<lambda>globals def.
                                  (let parts = split SUBCONFIG_SEP def in
                                   AList.update (parts ! 0)
                                     (JBool (1 < length parts \<and> parts ! 1 = ''true'')) globals))
                           [] (options_globals opts);
               loaded = (case options_configFile opts of
                           None \<Rightarrow> (JUndefined, c1)
                         | Some useConfig \<Rightarrow>
                             if useConfig = [] then (JUndefined, c1)
                             else loadCached w c1 (resolve_useConfig w (options_cwd opts) useConfig));
               cliConfigOptions =
                 [(''env'', JObj env), (''rules'', options_rules opts), (''globals'', JObj globals),
                  (''parserOptions'', or_else (options_parserOptions opts) (JObj [])),
                  (''plugins'', options_plugins opts)]
           in Inr (\<lparr> options = opts, parser = options_parser opts, baseConfig = baseConfig,
                     useEslintrc = (options_useEslintrc opts \<noteq> JBool False),
                     useSpecificConfig = fst loaded,
                     cliConfig = build_cliConfig cliConfigOptions,
                     personalConfig = None \<rparr>,
                   snd loaded))
      | Inr other \<Rightarrow> Inl IllTyped)"

definition getPersonalConfig :: "world \<Rightarrow> Config \<Rightarrow> ConfigCache \<Rightarrow> jsval \<times> Config \<times> ConfigCache" where
  "getPersonalConfig w cfg c =
     (case personalConfig cfg of
        Some config \<Rightarrow> (config, cfg, c)
      | None \<Rightarrow>
          (let loaded =
                 (case PERSONAL_CONFIG_DIR w of
                    None \<Rightarrow> (JUndefined, c)
                  | Some dir \<Rightarrow>
                      if dir = [] then (JUndefined, c)
                      else
                        (case getFilenameForDirectory w dir of
                           None \<Rightarrow> (JUndefined, c)
                         | Some filename \<Rightarrow>
                             if filename = [] then (JUndefined, c) else loadCached w c filename));
               config = or_else (fst loaded) JNull
           in (config, cfg\<lparr>personalConfig := Some config\<rparr>, snd loaded)))"

text \<open>
  The loop of \<open>getLocalConfigHierarchy\<close> over the config files found, nearest first.
  Its state is \<open>configs\<close>, \<open>searched\<close>, \<open>rootPath\<close> (\<open>None\<close> while it is
  \<open>undefined\<close>) and the cache; its result adds the value of the variable \<open>cache\<close>
  after the loop: the cached list on which the loop broke, or \<open>None\<close> for \<open>undefined\<close>.
  A cached list is an array, so it is true in a condition.
\<close>

fun walk ::
  "world \<Rightarrow> string option \<Rightarrow> string list \<Rightarrow> jsval list \<Rightarrow> string list \<Rightarrow> string option
     \<Rightarrow> ConfigCache \<Rightarrow> jsval list \<times> string list \<times> jsval list option \<times> ConfigCache" where
  "walk w projectConfigPath [] configs searched rootPath c = (configs, searched, None, c)"
| "walk w projectConfigPath (localConfigFile # rest) configs searched rootPath c =
     (let localConfigDirectory = path_dirname w localConfigFile in
      case getHierarchyLocalConfigs c localConfigDirectory of
        Some cache \<Rightarrow> (configs, searched, Some cache, c)
      | None \<Rightarrow>
          if Some localConfigDirectory = PERSONAL_CONFIG_DIR w
             \<and> Some localConfigFile \<noteq> projectConfigPath
          then walk w projectConfigPath rest configs searched rootPath c
          else if (case rootPath of
                     None \<Rightarrow> False
                   | Some root \<Rightarrow>
                       root \<noteq> [] \<and> \<not> pathIsInside w (path_dirname w localConfigFile) root)
          then walk w projectConfigPath rest configs searched rootPath c
          else
            (case loadCached w c localConfigFile of
               (localConfig, c') \<Rightarrow>
                 if \<not> truthy localConfig
                 then walk w projectConfigPath rest configs searched rootPath c'
                 else
                   walk w projectConfigPath rest (configs @ [localConfig])
                     (searched @ [localConfigDirectory])
                     (if js_prop localConfig ''root'' = JBool True
                      then Some (path_dirname w localConfigFile) else rootPath)
                     c'))"

definition getLocalConfigHierarchy ::
  "world \<Rightarrow> Config \<Rightarrow> ConfigCache \<Rightarrow> string \<Rightarrow> error + jsval list \<times> Config \<times> ConfigCache" where
  "getLocalConfigHierarchy w cfg c directory =
     (let localConfigFiles = findAllInDirectoryAndParents w directory;
          projectConfigPath = getFilenameForDirectory w (options_cwd (options cfg))
      in case walk w projectConfigPath localConfigFiles [] [] None c of
           (configs, searched, cache, c1) \<Rightarrow>
             (case (if configs = [] \<and> cache = None \<and> \<not> truthy (useSpecificConfig cfg)
                    then
                      (case getPersonalConfig w cfg c1 of
                         (personal, cfg', c2) \<Rightarrow>
                           if truthy personal then Inr (configs @ [personal], cfg', c2)
                           else if \<not> hasRules (options cfg)
                                   \<and> \<not> truthy (options_baseConfig (options cfg))
                           then Inl (NoConfigFound directory localConfigFiles)
                           else Inr (configs, cfg', c2))
                    else Inr (configs, cfg, c1)) of
                Inl err \<Rightarrow> Inl err
              | Inr (configs', cfg', c2) \<Rightarrow>
                  (let merged = (case cache of
                                   Some cached \<Rightarrow> cached @ rev configs'
                                 | None \<Rightarrow> rev configs')
                   in Inr (merged, cfg', setHierarchyLocalConfigs c2 searched merged))))"

definition getConfigHierarchy ::
  "world \<Rightarrow> Config \<Rightarrow> ConfigCache \<Rightarrow> string \<Rightarrow> error + jsval list \<times> Config \<times> ConfigCache" where
  "getConfigHierarchy w cfg c directory =
     (case (if useEslintrc cfg
            then (case getLocalConfigHierarchy w cfg c directory of
                    Inl err \<Rightarrow> Inl err
                  | Inr (local, cfg', c') \<Rightarrow> Inr ([baseConfig cfg] @ local, cfg', c'))
            else Inr ([baseConfig cfg], cfg, c)) of
        Inl err \<Rightarrow> Inl err
      | Inr (configs, cfg', c') \<Rightarrow>
          Inr (if truthy (useSpecificConfig cfg) then configs @ [useSpecificConfig cfg] else configs,
               cfg', c'))"

text \<open>
  \<open>overrides.forEach((override, i) => ...)\<close>: the indices that the loop pushes on the
  vector.
\<close>

fun matching_overrides :: "world \<Rightarrow> string \<Rightarrow> jsval list \<Rightarrow> nat \<Rightarrow> error + jsval list" where
  "matching_overrides w relativePath [] i = Inr []"
| "matching_overrides w relativePath (override # rest) i =
     (case js_get override ''files'' of
        Inl err \<Rightarrow> Inl err
      | Inr files \<Rightarrow>
          (case pathMatchesGlobs w relativePath files of
             Inl err \<Rightarrow> Inl err
           | Inr matches \<Rightarrow>
               (case matching_overrides w relativePath rest (Suc i) of
                  Inl err \<Rightarrow> Inl err
                | Inr indices \<Rightarrow> Inr (if matches then JNum (int i) # indices else indices))))"

text \<open>
  The tokens one config of the hierarchy adds to the vector; \<open>path\<close> is
  \<open>filePath || directory\<close>.  \<open>config.baseDirectory\<close> is a string (\<open>substr\<close> drops the
  directory and the separator after it) or is missing, and then \<open>.length\<close> throws.
\<close>

definition config_tokens :: "world \<Rightarrow> string \<Rightarrow> jsval \<Rightarrow> error + jsval list" where
  "config_tokens w path config =
     (case js_get config ''overrides'' of
        Inl err \<Rightarrow> Inl err
      | Inr overrides \<Rightarrow>
          if \<not> truthy overrides then Inr [js_prop config ''filePath'']
          else
            (case js_prop config ''baseDirectory'' of
               JStr baseDirectory \<Rightarrow>
                 (let relativePath = drop (length baseDirectory + 1) path in
                  case overrides of
                    JArr os \<Rightarrow>
                      (case matching_overrides w relativePath os 0 of
                         Inl err \<Rightarrow> Inl err
                       | Inr indices \<Rightarrow> Inr (js_prop config ''filePath'' # indices))
                  | _ \<Rightarrow> Inl TypeError)
             | JUndefined \<Rightarrow> Inl TypeError
             | JNull \<Rightarrow> Inl TypeError
             | _ \<Rightarrow> Inl IllTyped))"

fun vector_of :: "world \<Rightarrow> string \<Rightarrow> jsval list \<Rightarrow> error + jsval list" where
  "vector_of w path [] = Inr []"
| "vector_of w path (config # rest) =
     (case config_tokens w path config of
        Inl err \<Rightarrow> Inl err
      | Inr tokens \<Rightarrow>
          (case vector_of w path rest of
             Inl err \<Rightarrow> Inl err
           | Inr vector \<Rightarrow> Inr (tokens @ vector)))"

text \<open>\<open>filePath\<close> is \<open>None\<close> for a call without a file (\<open>undefined\<close>).\<close>

definition getConfigVector ::
  "world \<Rightarrow> Config \<Rightarrow> ConfigCache \<Rightarrow> string option \<Rightarrow> error + jsval list \<times> Config \<times> ConfigCache" where
  "getConfigVector w cfg c filePath =
     (let given = (case filePath of None \<Rightarrow> False | Some p \<Rightarrow> p \<noteq> []);
          directory = (if given then path_dirname w (the filePath) else options_cwd (options cfg))
      in case getConfigHierarchy w cfg c directory of
           Inl err \<Rightarrow> Inl err
         | Inr (hierarchy, cfg', c') \<Rightarrow>
             (case vector_of w (if given then the filePath else directory) hierarchy of
                Inl err \<Rightarrow> Inl err
              | Inr vector \<Rightarrow> Inr (vector, cfg', c')))"

definition getConfig ::
  "world \<Rightarrow> Config \<Rightarrow> ConfigCache \<Rightarrow> string option \<Rightarrow> error + jsval \<times> Config \<times> ConfigCache" where
  "getConfig w cfg c filePath =
     (case getConfigVector w cfg c filePath of
        Inl err \<Rightarrow> Inl err
      | Inr (vector, cfg', c1) \<Rightarrow>
          if truthy (getMergedConfig c1 vector) then Inr (getMergedConfig c1 vector, cfg', c1)
          else
            (case getConfigFromVector c1 vector of
               Inl err \<Rightarrow> Inl err
             | Inr (config1, c2) \<Rightarrow>
                 (case merge config1 (cliConfig cfg') of
                    Inl err \<Rightarrow> Inl err
                  | Inr config2 \<Rightarrow>
                      (case (if truthy (parser cfg') \<or> \<not> truthy (js_prop config2 ''parser'')
                             then merge config2 (JObj [(''parser'', parser cfg')])
                             else Inr config2) of
                         Inl err \<Rightarrow> Inl err
                       | Inr config3 \<Rightarrow>
                           (case (if truthy (js_prop config3 ''env'')
                                  then applyEnvironments w config3
                                  else Inr config3) of
                              Inl err \<Rightarrow> Inl err
                            | Inr config4 \<Rightarrow>
                                Inr (config4, cfg', setMergedConfig c2 vector config4))))))"

text \<open>
  Calls of \<open>getConfig\<close> one after the other on the same \<open>Config\<close> and cache, as a run
  over several files makes them.
\<close>

fun getConfig_all ::
  "world \<Rightarrow> Config \<Rightarrow> ConfigCache \<Rightarrow> string option list \<Rightarrow> error + jsval list \<times> Config \<times> ConfigCache" where
  "getConfig_all w cfg c [] = Inr ([], cfg, c)"
| "getConfig_all w cfg c (filePath # rest) =
     (case getConfig w cfg c filePath of
        Inl err \<Rightarrow> Inl err
      | Inr (config, cfg', c') \<Rightarrow>
          (case getConfig_all w cfg' c' rest of
             Inl err \<Rightarrow> Inl err
           | Inr (configs, cfg'', c'') \<Rightarrow> Inr (config # configs, cfg'', c'')))"

section \<open>The conditions of the claims\<close>


text \<open>
  A rule entry with a textual severity: a string, or an array whose first element is a
  string.  \<open>lower_severity\<close> writes that severity in lower case.
\<close>

definition textual_severity :: "jsval \<Rightarrow> bool" where
  "textual_severity ruleConfig =
     (case ruleConfig of JStr s \<Rightarrow> True | JArr (JStr s # rest) \<Rightarrow> True | _ \<Rightarrow> False)"

fun lower_severity :: "jsval \<Rightarrow> jsval" where
  "lower_severity (JStr s) = JStr (toLowerCase s)"
| "lower_severity (JArr (JStr s # rest)) = JArr (JStr (toLowerCase s) # rest)"
| "lower_severity ruleConfig = ruleConfig"

text \<open>The local hierarchy of a directory when that of another was resolved before it.\<close>

definition hierarchy_after ::
  "world \<Rightarrow> Config \<Rightarrow> ConfigCache \<Rightarrow> string \<Rightarrow> string \<Rightarrow> error + jsval list" where
  "hierarchy_after w cfg c first second =
     (case getLocalConfigHierarchy w cfg c first of
        Inl err \<Rightarrow> Inl err
      | Inr (h1, cfg1, c1) \<Rightarrow>
          (case getLocalConfigHierarchy w cfg1 c1 second of
             Inl err \<Rightarrow> Inl err
           | Inr (h2, cfg2, c2) \<Rightarrow> Inr h2))"







section \<open>Example inputs\<close>

text \<open>
  A world with no config file, no personal directory and no environment: the examples
  below change the fields they need.
\<close>

definition empty_world :: world where
  "empty_world =
     \<lparr> Environments_get = (\<lambda>name. JUndefined),
       minimatch = (\<lambda>path pattern. False),
       findAllInDirectoryAndParents = (\<lambda>directory. []),
       getFilenameForDirectory = (\<lambda>directory. None),
       load_file = (\<lambda>path. JUndefined),
       loadObject = (\<lambda>v. v),
       path_dirname = (\<lambda>path. ''/''),
       pathIsInside = (\<lambda>path root. True),
       PERSONAL_CONFIG_DIR = None,
       resolve_useConfig = (\<lambda>cwd name. name) \<rparr>"

text \<open>
  A config source with one override block of two patterns, and a glob matcher under which
  \<open>lib/a.ts\<close> matches the first pattern only.
\<close>

definition glob_world :: world where
  "glob_world =
     empty_world\<lparr> minimatch := (\<lambda>path pattern. (pattern = ''*.ts'' \<and> path = ''lib/a.ts'')
                                              \<or> (pattern = ''src/**'' \<and> path = ''src/a.js'')) \<rparr>"

definition glob_config :: jsval where
  "glob_config =
     JObj [(''overrides'', JArr [JObj [(''files'', JArr [JStr ''*.ts'', JStr ''src/**'']),
                                      (''rules'', JObj [(''semi'', JNum 2)])]]),
           (''filePath'', JStr ''/proj/.eslintrc''),
           (''baseDirectory'', JStr ''/proj'')]"

text \<open>
  A run with no option but the working directory: the \<open>Config\<close> and the cache that the
  constructor builds (\<open>Config_new_plain\<close> below), and the same with one rule given as
  an option.
\<close>

definition no_options :: options where
  "no_options =
     \<lparr> options_baseConfig = JUndefined, options_cwd = ''/proj'', options_useEslintrc = JUndefined,
       options_envs = [], options_globals = [], options_configFile = None,
       options_plugins = JUndefined, options_rules = JUndefined, options_parser = JUndefined,
       options_parserOptions = JUndefined \<rparr>"

definition plain_base :: jsval where
  "plain_base = JObj [(''rules'', JObj []), (''filePath'', JStr []), (''baseDirectory'', JStr ''/proj'')]"

definition plain_config :: Config where
  "plain_config =
     \<lparr> options = no_options, parser = JUndefined, baseConfig = plain_base, useEslintrc = True,
       useSpecificConfig = JUndefined,
       cliConfig = JObj [(''env'', JObj []), (''globals'', JObj []), (''parserOptions'', JObj [])],
       personalConfig = None \<rparr>"

definition plain_cache :: ConfigCache where
  "plain_cache =
     \<lparr> filePathCache = [[] \<mapsto> plain_base], localHierarchyCache = Map.empty,
       mergedVectorCache = [[] \<mapsto> plain_base], mergedCache = Map.empty \<rparr>"

definition one_rule_config :: Config where
  "one_rule_config =
     plain_config\<lparr> options := no_options\<lparr> options_rules := JObj [(''semi'', JNum 2)] \<rparr>,
                   cliConfig := JObj [(''env'', JObj []), (''rules'', JObj [(''semi'', JNum 2)]),
                                      (''globals'', JObj []), (''parserOptions'', JObj [])] \<rparr>"

text \<open>A world whose registry knows the environment \<open>browser\<close>, with two globals.\<close>

definition browser_world :: world where
  "browser_world =
     empty_world\<lparr> Environments_get :=
       (\<lambda>name. if name = ''browser''
               then JObj [(''globals'', JObj [(''window'', JBool False), (''document'', JBool False)])]
               else JUndefined) \<rparr>"

text \<open>
  Two nested config files, \<open>/a/.eslintrc\<close> and \<open>/a/b/.eslintrc\<close>, loaded into the cache
  of the plain run; the vector of a file in \<open>/a/b\<close>; and the merge of the three sources.
\<close>

definition nested_cache :: ConfigCache where
  "nested_cache =
     plain_cache\<lparr> filePathCache := (filePathCache plain_cache)
       (''/a/.eslintrc'' \<mapsto>
          JObj [(''rules'', JObj [(''semi'', JNum 2)]), (''filePath'', JStr ''/a/.eslintrc''),
                (''baseDirectory'', JStr ''/a'')],
        ''/a/b/.eslintrc'' \<mapsto>
          JObj [(''rules'', JObj [(''quotes'', JNum 1)]), (''filePath'', JStr ''/a/b/.eslintrc''),
                (''baseDirectory'', JStr ''/a/b'')]) \<rparr>"

definition nested_vector :: "jsval list" where
  "nested_vector = [JStr [], JStr ''/a/.eslintrc'', JStr ''/a/b/.eslintrc'']"

definition nested_config :: jsval where
  "nested_config = JObj [(''rules'', JObj [(''semi'', JNum 2), (''quotes'', JNum 1)])]"

text \<open>
  A tree with a config file in \<open>/\<close>, in \<open>/x\<close>, in \<open>/a\<close> (with \<open>root: true\<close>) and
  in \<open>/a/b\<close>; \<open>pathIsInside\<close> compares the paths component by component.
\<close>

definition top_config :: jsval where
  "top_config = JObj [(''rules'', JObj [(''eqeqeq'', JNum 2)]), (''filePath'', JStr ''/.eslintrc''),
                      (''baseDirectory'', JStr ''/'')]"

definition x_config :: jsval where
  "x_config = JObj [(''rules'', JObj []), (''filePath'', JStr ''/x/.eslintrc''),
                    (''baseDirectory'', JStr ''/x'')]"

definition a_config :: jsval where
  "a_config = JObj [(''root'', JBool True), (''rules'', JObj [(''semi'', JNum 2)]),
                    (''filePath'', JStr ''/a/.eslintrc''), (''baseDirectory'', JStr ''/a'')]"

definition b_config :: jsval where
  "b_config = JObj [(''rules'', JObj [(''quotes'', JNum 1)]), (''filePath'', JStr ''/a/b/.eslintrc''),
                    (''baseDirectory'', JStr ''/a/b'')]"

definition root_world :: world where
  "root_world =
     empty_world\<lparr>
       findAllInDirectoryAndParents :=
         (\<lambda>directory.
            if directory = ''/a/b'' then [''/a/b/.eslintrc'', ''/a/.eslintrc'', ''/.eslintrc'']
            else if directory = ''/x'' then [''/x/.eslintrc'', ''/.eslintrc'']
            else []),
       load_file :=
         (\<lambda>path.
            if path = ''/.eslintrc'' then top_config
            else if path = ''/x/.eslintrc'' then x_config
            else if path = ''/a/.eslintrc'' then a_config
            else if path = ''/a/b/.eslintrc'' then b_config
            else JUndefined),
       path_dirname :=
         (\<lambda>path.
            if path = ''/a/b/.eslintrc'' then ''/a/b''
            else if path = ''/a/.eslintrc'' then ''/a''
            else if path = ''/x/.eslintrc'' then ''/x''
            else ''/''),
       pathIsInside :=
         (\<lambda>path root.
            take (length root) path = root
            \<and> (length path = length root \<or> path ! length root = CHR ''/'')) \<rparr>"

text \<open>
  A project with one config file, \<open>/proj/.eslintrc\<close>, which has a rule and one override
  block for \<open>*.ts\<close>, and three files in \<open>/proj/src\<close>.  \<open>after_first\<close> is the result
  and the state after the file \<open>a.js\<close> has been resolved on a fresh \<open>Config\<close>.
\<close>

definition project_config :: jsval where
  "project_config =
     JObj [(''rules'', JObj [(''no-undefined'', JStr ''error'')]),
           (''overrides'', JArr [JObj [(''files'', JArr [JStr ''*.ts'']),
                                      (''rules'', JObj [(''semi'', JNum 2)])]]),
           (''filePath'', JStr ''/proj/.eslintrc''),
           (''baseDirectory'', JStr ''/proj'')]"

definition project_world :: world where
  "project_world =
     empty_world\<lparr>
       findAllInDirectoryAndParents :=
         (\<lambda>directory. if directory = ''/proj/src'' then [''/proj/.eslintrc''] else []),
       load_file := (\<lambda>path. if path = ''/proj/.eslintrc'' then project_config else JUndefined),
       path_dirname :=
         (\<lambda>path. if path = ''/proj/.eslintrc'' then ''/proj''
                 else if path \<in> {''/proj/src/a.js'', ''/proj/src/b.js'', ''/proj/src/c.ts''}
                 then ''/proj/src'' else ''/''),
       minimatch := (\<lambda>path pattern. pattern = ''*.ts'' \<and> path = ''src/c.ts'') \<rparr>"

definition after_first :: "jsval \<times> Config \<times> ConfigCache" where
  "after_first = projr (getConfig project_world plain_config plain_cache (Some ''/proj/src/a.js''))"




section \<open>Properties\<close>

subsection \<open>The hierarchy cache\<close>

lemma setHierarchyLocalConfigs_from_other:
  "d \<notin> set ds \<Longrightarrow>
   localHierarchyCache (setHierarchyLocalConfigs_from i c ds configs) d = localHierarchyCache c d"
  by (induction ds arbitrary: i c) (auto simp: Let_def)

lemma setHierarchyLocalConfigs_from_nth:
  "k < length ds \<Longrightarrow> ds ! k \<notin> set (drop (Suc k) ds) \<Longrightarrow>
   localHierarchyCache (setHierarchyLocalConfigs_from i c ds configs) (ds ! k) =
     Some (js_slice0 configs (int (length configs) - int (i + k)))"
proof (induction ds arbitrary: i c k)
  case Nil
  then show ?case by simp
next
  case (Cons d ds)
  show ?case
  proof (cases k)
    case 0
    with Cons.prems show ?thesis
      by (simp add: Let_def setHierarchyLocalConfigs_from_other)
  next
    case (Suc j)
    with Cons.prems have "j < length ds" "ds ! j \<notin> set (drop (Suc j) ds)"
      by simp_all
    from Cons.IH[OF this, of "Suc i"] Suc show ?thesis
      by (simp add: Let_def add.assoc)
  qed
qed

text \<open>
  C9.  After \<open>setHierarchyLocalConfigs(directories, configs)\<close> the hierarchy lookup for the
  walked directory at index \<open>i\<close> (0 = nearest; the directory is not walked again later in
  the list, as the directories of one upward walk are pairwise different) returns
  \<open>configs.slice(0, len - i)\<close>, which for \<open>i \<le> len\<close> is the list \<open>configs[0 .. len-i)\<close>:
  the nearest directory gets the full list and each farther one drops one more trailing
  config.
\<close>

theorem setHierarchyLocalConfigs_stores_prefixes:
  assumes "i < length directories"
    and "directories ! i \<notin> set (drop (Suc i) directories)"
  shows "getHierarchyLocalConfigs (setHierarchyLocalConfigs c directories configs) (directories ! i)
           = Some (js_slice0 configs (int (length configs) - int i))
         \<and> (i \<le> length configs \<longrightarrow>
              js_slice0 configs (int (length configs) - int i) = take (length configs - i) configs)"
  using setHierarchyLocalConfigs_from_nth[OF assms, of 0 c configs]
  by (auto simp: getHierarchyLocalConfigs_def setHierarchyLocalConfigs_def js_slice0_def
      nat_diff_distrib')

theorem setHierarchyLocalConfigs_stores_prefixes_witness:
  "(1::nat) < length [''/a/b/c'', ''/a/b'', ''/a'']
   \<and> [''/a/b/c'', ''/a/b'', ''/a''] ! 1 \<notin> set (drop (Suc 1) [''/a/b/c'', ''/a/b'', ''/a''])
   \<and> (1::nat) \<le> length [JStr ''A'', JStr ''B'', JStr ''C'']
   \<and> getHierarchyLocalConfigs
        (setHierarchyLocalConfigs init [''/a/b/c'', ''/a/b'', ''/a'']
           [JStr ''A'', JStr ''B'', JStr ''C''])
        ''/a/b'' = Some [JStr ''A'', JStr ''B'']"
  using setHierarchyLocalConfigs_stores_prefixes
    [of 1 "[''/a/b/c'', ''/a/b'', ''/a'']" init "[JStr ''A'', JStr ''B'', JStr ''C'']"]
  by (simp add: js_slice0_def)

subsection \<open>Override matching\<close>

lemma every_pattern_all:
  "every_pattern w filePath (map JStr ps) = Inr (\<forall>p\<in>set ps. minimatch w filePath p)"
  by (induction ps) auto

lemma matching_overrides_lower:
  "matching_overrides w rel os i = Inr indices \<Longrightarrow> JNum (int j) \<in> set indices \<Longrightarrow> i \<le> j"
proof (induction os arbitrary: i indices)
  case Nil
  then show ?case by simp
next
  case (Cons override rest)
  from Cons.prems(1) obtain b0 indices0 where
    r0: "matching_overrides w rel rest (Suc i) = Inr indices0"
    and ind: "indices = (if b0 then JNum (int i) # indices0 else indices0)"
    by (auto split: sum.splits)
  from Cons.prems(2) ind have "j = i \<or> JNum (int j) \<in> set indices0"
    by (auto split: if_splits)
  then show ?case
    using Cons.IH[OF r0] by auto
qed

lemma matching_overrides_index:
  "matching_overrides w rel os i = Inr indices \<Longrightarrow> k < length os \<Longrightarrow>
   js_get (os ! k) ''files'' = Inr files \<Longrightarrow> pathMatchesGlobs w rel files = Inr b \<Longrightarrow>
   (JNum (int (i + k)) \<in> set indices) = b"
proof (induction os arbitrary: i k indices)
  case Nil
  then show ?case by simp
next
  case (Cons override rest)
  from Cons.prems(1) obtain files0 b0 indices0 where
    f0: "js_get override ''files'' = Inr files0"
    and m0: "pathMatchesGlobs w rel files0 = Inr b0"
    and r0: "matching_overrides w rel rest (Suc i) = Inr indices0"
    and ind: "indices = (if b0 then JNum (int i) # indices0 else indices0)"
    by (auto split: sum.splits)
  show ?case
  proof (cases k)
    case 0
    with Cons.prems(3,4) f0 m0 have "b0 = b" by simp
    moreover have "JNum (int i) \<notin> set indices0"
      using matching_overrides_lower[OF r0, of i] by auto
    ultimately show ?thesis using ind 0 by simp
  next
    case (Suc k')
    with Cons.prems have "k' < length rest" "js_get (rest ! k') ''files'' = Inr files" by simp_all
    from Cons.IH[OF r0 this Cons.prems(4)] have "(JNum (int (Suc i + k')) \<in> set indices0) = b" .
    with ind Suc show ?thesis by simp
  qed
qed

text \<open>
  C6.  Override matching is conjunctive.  \<open>pathMatchesGlobs\<close> on a list of patterns returns
  true exactly when every pattern matches the path.  In \<open>getConfigVector\<close>, the tokens of a
  config source with override blocks are its \<open>filePath\<close> and then the indices of the
  blocks, and the index of a block is among them exactly when every pattern of its
  \<open>files\<close> matches the path relative to the source's \<open>baseDirectory\<close>; so a path that
  matches only one of two patterns does not select the block.
\<close>

theorem pathMatchesGlobs_conjunctive:
  assumes "config_tokens w path config = Inr tokens"
    and "js_prop config ''overrides'' = JArr overrides"
    and "js_prop config ''baseDirectory'' = JStr baseDirectory"
    and "i < length overrides"
    and "js_get (overrides ! i) ''files'' = Inr (JArr (map JStr patterns))"
  shows "pathMatchesGlobs w filePath (JArr (map JStr ps)) = Inr (\<forall>p\<in>set ps. minimatch w filePath p)
    \<and> (\<exists>indices. tokens = js_prop config ''filePath'' # indices
          \<and> (JNum (int i) \<in> set indices
               \<longleftrightarrow> (\<forall>p\<in>set patterns. minimatch w (drop (length baseDirectory + 1) path) p)))"
proof
  show "pathMatchesGlobs w filePath (JArr (map JStr ps)) = Inr (\<forall>p\<in>set ps. minimatch w filePath p)"
    by (simp add: pathMatchesGlobs_def every_pattern_all)
next
  let ?rel = "drop (length baseDirectory + 1) path"
  from assms(1-3) obtain indices where
    m: "matching_overrides w ?rel overrides 0 = Inr indices"
    and t: "tokens = js_prop config ''filePath'' # indices"
    by (auto simp: config_tokens_def js_get_def split: if_splits sum.splits)
  have "pathMatchesGlobs w ?rel (JArr (map JStr patterns)) = Inr (\<forall>p\<in>set patterns. minimatch w ?rel p)"
    by (simp add: pathMatchesGlobs_def every_pattern_all)
  from matching_overrides_index[OF m assms(4,5) this] t
  show "\<exists>indices. tokens = js_prop config ''filePath'' # indices
          \<and> (JNum (int i) \<in> set indices \<longleftrightarrow> (\<forall>p\<in>set patterns. minimatch w ?rel p))"
    by simp
qed

theorem pathMatchesGlobs_conjunctive_witness:
  "config_tokens glob_world ''/proj/lib/a.ts'' glob_config = Inr [JStr ''/proj/.eslintrc'']
   \<and> minimatch glob_world ''lib/a.ts'' ''*.ts''
   \<and> \<not> minimatch glob_world ''lib/a.ts'' ''src/**''
   \<and> pathMatchesGlobs glob_world ''lib/a.ts'' (JArr (map JStr [''*.ts'', ''src/**''])) = Inr False"
proof -
  have t: "config_tokens glob_world ''/proj/lib/a.ts'' glob_config = Inr [JStr ''/proj/.eslintrc'']"
    by (simp add: config_tokens_def glob_config_def glob_world_def js_get_def own_def
        pathMatchesGlobs_def empty_world_def)
  have o: "js_prop glob_config ''overrides''
       = JArr [JObj [(''files'', JArr [JStr ''*.ts'', JStr ''src/**'']),
                     (''rules'', JObj [(''semi'', JNum 2)])]]"
    and b: "js_prop glob_config ''baseDirectory'' = JStr ''/proj''"
    by (simp_all add: glob_config_def own_def)
  from pathMatchesGlobs_conjunctive[OF t o b, of 0 "[''*.ts'', ''src/**'']" "''lib/a.ts''" "[''*.ts'', ''src/**'']"]
  show ?thesis
    using t by (simp add: js_get_def own_def glob_world_def empty_world_def)
qed

subsection \<open>The error of a run without configuration\<close>

lemma Config_new_plain: "Config_new empty_world no_options = Inr (plain_config, plain_cache)"
  by (simp add: Config_new_def no_options_def empty_world_def plain_config_def plain_cache_def
      plain_base_def build_cliConfig_def init_def cache_setConfig_def or_else_def Let_def)

lemma Config_new_one_rule:
  "Config_new empty_world (no_options\<lparr> options_rules := JObj [(''semi'', JNum 2)] \<rparr>)
     = Inr (one_rule_config, plain_cache)"
  by (simp add: Config_new_def no_options_def empty_world_def plain_config_def plain_cache_def
      plain_base_def build_cliConfig_def init_def cache_setConfig_def or_else_def one_rule_config_def Let_def)



subsection \<open>Severities\<close>

lemma lower_char_not_upper: "lower_char c \<notin> set ''ABCDEFGHIJKLMNOPQRSTUVWXYZ''"
  by (simp add: lower_char_def)

lemma toLowerCase_no_upper: "c \<in> set (toLowerCase s) \<Longrightarrow> c \<notin> set ''ABCDEFGHIJKLMNOPQRSTUVWXYZ''"
  using lower_char_not_upper by (auto simp: toLowerCase_def)

lemma inherited_lower:
  "Object_prototype_get (toLowerCase s) = JUndefined
     \<longleftrightarrow> toLowerCase s \<noteq> ''constructor'' \<and> toLowerCase s \<noteq> ''__proto__''"
proof -
  have "toLowerCase s \<noteq> k" if "\<exists>c\<in>set k. c \<in> set ''ABCDEFGHIJKLMNOPQRSTUVWXYZ''" for k
    using that toLowerCase_no_upper[of _ s] by blast
  then have "toLowerCase s \<notin> set [''hasOwnProperty'', ''isPrototypeOf'', ''propertyIsEnumerable'',
                         ''toLocaleString'', ''toString'', ''valueOf'', ''__defineGetter__'',
                         ''__defineSetter__'', ''__lookupGetter__'', ''__lookupSetter__'']"
    by simp
  then show ?thesis
    by (simp add: Object_prototype_get_def)
qed

lemma isValidSeverity_text:
  "isValidSeverity (JStr s) \<longleftrightarrow> toLowerCase s \<in> {''off'', ''warn'', ''error''}"
  "isValidSeverity (JArr (JStr s # rest)) \<longleftrightarrow> toLowerCase s \<in> {''off'', ''warn'', ''error''}"
  by (auto simp: isValidSeverity_def VALID_SEVERITIES_def)

lemma severity_roundtrip_valid:
  assumes "toLowerCase s \<in> {''off'', ''warn'', ''error''}"
  shows "normalizeToStrings_rule (severity_number s) = JStr (toLowerCase s)"
    and "\<exists>n. severity_number s = JNum n \<and> severity_string n = JStr (toLowerCase s)"
  using assms
  by (auto simp: severity_number_def RULE_SEVERITY_get_def RULE_SEVERITY_def or_else_def
      severity_string_def RULE_SEVERITY_STRINGS_def)

lemma roundtrip_rule:
  assumes "textual_severity v" and "isValidSeverity v"
  shows "normalizeToStrings_rule (normalize_rule v) = lower_severity v"
proof (cases v)
  case (JStr s)
  with assms show ?thesis by (simp add: isValidSeverity_text severity_roundtrip_valid)
next
  case (JArr xs)
  with assms obtain s rest where xs: "xs = JStr s # rest"
    by (auto simp: textual_severity_def split: list.splits jsval.splits)
  with JArr assms(2) have "toLowerCase s \<in> {''off'', ''warn'', ''error''}"
    by (simp add: isValidSeverity_text)
  from severity_roundtrip_valid(2)[OF this] JArr xs show ?thesis by auto
qed (use assms in \<open>simp_all add: textual_severity_def\<close>)

lemma severity_invalid:
  assumes "\<not> isValidSeverity (JStr s)"
    and "toLowerCase s \<noteq> ''constructor''" and "toLowerCase s \<noteq> ''__proto__''"
  shows "normalize_rule (JStr s) = JNum 0"
proof -
  from assms(1) have "map_of RULE_SEVERITY (toLowerCase s) = None"
    by (auto simp: isValidSeverity_text RULE_SEVERITY_def)
  moreover from assms(2,3) have "Object_prototype_get (toLowerCase s) = JUndefined"
    by (simp add: inherited_lower)
  ultimately show ?thesis
    by (simp add: severity_number_def RULE_SEVERITY_get_def or_else_def)
qed

text \<open>
  C7, amended.  For a config whose rules all carry valid textual severities (valid as
  \<open>isValidSeverity\<close> has it, in any letter case), \<open>normalize\<close> and then
  \<open>normalizeToStrings\<close> yield the severities in lower case: the original ones exactly
  when they were written in lower case.  A textual severity that is not valid is mapped by
  \<open>normalize\<close> to 0 and then by \<open>normalizeToStrings\<close> to \<open>off\<close>, unless in lower case
  it is \<open>constructor\<close> or \<open>__proto__\<close>, which \<open>RULE_SEVERITY\<close> inherits.
\<close>

theorem severity_roundtrip:
  assumes "map_of config ''rules'' = Some (JObj rules)"
    and "\<forall>(ruleId, v)\<in>set rules. textual_severity v \<and> isValidSeverity v"
  shows "bind (normalize_config (JObj config)) normalizeToStrings
           = Inr (JObj (AList.update ''rules''
                          (JObj (map (\<lambda>(ruleId, v). (ruleId, lower_severity v)) rules)) config))
    \<and> ((\<forall>(ruleId, v)\<in>set rules. lower_severity v = v) \<longrightarrow>
         bind (normalize_config (JObj config)) normalizeToStrings = Inr (JObj config))
    \<and> (\<forall>s. \<not> isValidSeverity (JStr s) \<and> toLowerCase s \<noteq> ''constructor''
             \<and> toLowerCase s \<noteq> ''__proto__'' \<longrightarrow>
           normalize_rule (JStr s) = JNum 0
           \<and> normalizeToStrings_rule (normalize_rule (JStr s)) = JStr ''off'')"
proof -
  let ?n = "map (\<lambda>(ruleId, v). (ruleId, normalize_rule v)) rules"
  let ?l = "map (\<lambda>(ruleId, v). (ruleId, lower_severity v)) rules"
  have n: "normalize_config (JObj config) = Inr (JObj (AList.update ''rules'' (JObj ?n) config))"
    using assms(1) by (simp add: normalize_config_def map_rules_def js_get_def own_def)
  have m: "map (\<lambda>(ruleId, v). (ruleId, normalizeToStrings_rule v)) ?n = ?l"
    using assms(2) by (auto simp: roundtrip_rule)
  have g: "js_get (JObj (AList.update ''rules'' (JObj ?n) config)) ''rules'' = Inr (JObj ?n)"
    by (simp add: js_get_def own_def update_conv')
  have "normalizeToStrings (JObj (AList.update ''rules'' (JObj ?n) config))
           = Inr (JObj (AList.update ''rules''
                   (JObj (map (\<lambda>(ruleId, v). (ruleId, normalizeToStrings_rule v)) ?n))
                   (AList.update ''rules'' (JObj ?n) config)))"
    unfolding normalizeToStrings_def map_rules_def g by simp
  then have s: "normalizeToStrings (JObj (AList.update ''rules'' (JObj ?n) config))
           = Inr (JObj (AList.update ''rules'' (JObj ?l) config))"
    by (simp only: m update_last)
  from n s have r: "bind (normalize_config (JObj config)) normalizeToStrings
           = Inr (JObj (AList.update ''rules'' (JObj ?l) config))"
    by (simp add: bind_def)
  have same: "bind (normalize_config (JObj config)) normalizeToStrings = Inr (JObj config)"
    if "\<forall>(ruleId, v)\<in>set rules. lower_severity v = v"
  proof -
    from that have "?l = rules" by (auto intro: map_idI)
    with r assms(1) show ?thesis by (simp add: update_triv)
  qed
  have inv: "normalize_rule (JStr s) = JNum 0
           \<and> normalizeToStrings_rule (normalize_rule (JStr s)) = JStr ''off''"
    if "\<not> isValidSeverity (JStr s)" "toLowerCase s \<noteq> ''constructor''" "toLowerCase s \<noteq> ''__proto__''"
    for s
    using severity_invalid[OF that]
    by (simp add: severity_string_def RULE_SEVERITY_STRINGS_def or_else_def)
  from r same inv show ?thesis by blast
qed

theorem severity_roundtrip_witness:
  "map_of [(''rules'', JObj [(''semi'', JStr ''Error''), (''quotes'', JArr [JStr ''warn'', JStr ''double''])])] ''rules''
     = Some (JObj [(''semi'', JStr ''Error''), (''quotes'', JArr [JStr ''warn'', JStr ''double''])])
   \<and> isValidSeverity (JStr ''Error'')
   \<and> isValidSeverity (JArr [JStr ''warn'', JStr ''double''])
   \<and> bind (normalize_config
         (JObj [(''rules'', JObj [(''semi'', JStr ''Error''),
                                  (''quotes'', JArr [JStr ''warn'', JStr ''double''])])]))
        normalizeToStrings
      = Inr (JObj [(''rules'', JObj [(''semi'', JStr ''error''),
                                     (''quotes'', JArr [JStr ''warn'', JStr ''double''])])])
   \<and> \<not> isValidSeverity (JStr ''loud'')
   \<and> normalizeToStrings_rule (normalize_rule (JStr ''loud'')) = JStr ''off''"
proof -
  let ?rules = "[(''semi'', JStr ''Error''), (''quotes'', JArr [JStr ''warn'', JStr ''double''])]"
  have v: "isValidSeverity (JStr ''Error'')" "isValidSeverity (JArr [JStr ''warn'', JStr ''double''])"
    "\<not> isValidSeverity (JStr ''loud'')"
    by (simp_all add: isValidSeverity_def VALID_SEVERITIES_def toLowerCase_def lower_char_def)
  have l: "toLowerCase ''loud'' \<noteq> ''constructor''" "toLowerCase ''loud'' \<noteq> ''__proto__''"
    by (simp_all add: toLowerCase_def lower_char_def)
  have a: "\<forall>(ruleId, v)\<in>set ?rules. textual_severity v \<and> isValidSeverity v"
    using v by (simp add: textual_severity_def)
  have m0: "map_of [(''rules'', JObj ?rules)] ''rules'' = Some (JObj ?rules)"
    by simp
  note rt = severity_roundtrip[OF m0 a]
  have "bind (normalize_config (JObj [(''rules'', JObj ?rules)])) normalizeToStrings
          = Inr (JObj [(''rules'', JObj [(''semi'', JStr ''error''),
                                        (''quotes'', JArr [JStr ''warn'', JStr ''double''])])])"
    using rt by (simp add: toLowerCase_def lower_char_def)
  moreover have "normalizeToStrings_rule (normalize_rule (JStr ''loud'')) = JStr ''off''"
    using rt v(3) l by blast
  ultimately show ?thesis
    using v by simp
qed

text \<open>
  The claim as stated fails: the valid severity \<open>ERROR\<close> comes back as \<open>error\<close>, and
  the invalid severity \<open>constructor\<close> is mapped to the function \<open>Object\<close>, not to 0.
\<close>

theorem severity_roundtrip_counterexample:
  "isValidSeverity (JStr ''ERROR'')
   \<and> bind (normalize_config (JObj [(''rules'', JObj [(''semi'', JStr ''ERROR'')])])) normalizeToStrings
       = Inr (JObj [(''rules'', JObj [(''semi'', JStr ''error'')])])
   \<and> JObj [(''rules'', JObj [(''semi'', JStr ''error'')])]
       \<noteq> JObj [(''rules'', JObj [(''semi'', JStr ''ERROR'')])]
   \<and> \<not> isValidSeverity (JStr ''constructor'')
   \<and> normalize_rule (JStr ''constructor'') = JFun ''Object''
   \<and> normalizeToStrings_rule (normalize_rule (JStr ''constructor'')) = JFun ''Object''"
  by (simp add: isValidSeverity_def VALID_SEVERITIES_def toLowerCase_def lower_char_def
      normalize_config_def normalizeToStrings_def map_rules_def js_get_def own_def bind_def
      severity_number_def severity_string_def RULE_SEVERITY_get_def RULE_SEVERITY_def
      RULE_SEVERITY_STRINGS_def Object_prototype_get_def or_else_def)

subsection \<open>Reading the result of a merge\<close>

text \<open>
  What \<open>merge_keys\<close> leaves under a key: the value of the target for a key that the source
  does not have, the value of the source for a key whose value there is not an object, and
  the merge of the two values for a key whose value is an object on the source side.
\<close>

lemma own_update: "own (AList.update k v al) k' = (if k' = k then v else own al k')"
  by (simp add: own_def update_conv')

lemma merge_keys_other:
  "merge_keys target src dst combine isRule = Inr dst' \<Longrightarrow> k \<notin> fst ` set src \<Longrightarrow>
   own dst' k = own dst k"
proof (induction src arbitrary: dst)
  case Nil
  then show ?case by simp
next
  case (Cons p src)
  obtain key v where p: "p = (key, v)" by (cases p)
  with Cons.prems(2) have k: "k \<noteq> key" "k \<notin> fst ` set src" by auto
  from Cons.prems(1) p obtain m where
    "merge_keys target src (AList.update key m dst) combine isRule = Inr dst'"
    by (auto split: sum.splits if_splits)
  from Cons.IH[OF this k(2)] k(1) show ?case by (simp add: own_update)
qed

lemma merge_keys_scalar:
  "merge_keys target src dst combine isRule = Inr dst' \<Longrightarrow> distinct (map fst src) \<Longrightarrow>
   (k, v) \<in> set src \<Longrightarrow> js_typeof v \<noteq> ''object'' \<Longrightarrow> k \<noteq> ''overrides'' \<Longrightarrow>
   \<not> isArray (js_prop target k) \<Longrightarrow> own dst' k = v"
proof (induction src arbitrary: dst)
  case Nil
  then show ?case by simp
next
  case (Cons p src)
  obtain key w where p: "p = (key, w)" by (cases p)
  show ?case
  proof (cases "key = k")
    case True
    with Cons.prems(2,3) p have w: "w = v" and nk: "k \<notin> fst ` set src"
      by (auto simp: image_iff)
    from Cons.prems(4) have "\<not> isArray v" by (cases v) auto
    with Cons.prems(1,4,5,6) p True w
    have "merge_keys target src (AList.update k v dst) combine isRule = Inr dst'"
      by (auto simp: js_get_def split: sum.splits if_splits)
    from merge_keys_other[OF this nk] show ?thesis by (simp add: own_update)
  next
    case False
    with Cons.prems(2,3) p have "distinct (map fst src)" "(k, v) \<in> set src" by auto
    moreover from Cons.prems(1) p obtain m where
      "merge_keys target src (AList.update key m dst) combine isRule = Inr dst'"
      by (auto split: sum.splits if_splits)
    ultimately show ?thesis using Cons.IH Cons.prems(4,5,6) by blast
  qed
qed

lemma merge_keys_object:
  "merge_keys target src dst combine isRule = Inr dst' \<Longrightarrow> distinct (map fst src) \<Longrightarrow>
   (k, JObj kvs) \<in> set src \<Longrightarrow> k \<notin> {''overrides'', ''exported'', ''astGlobals''} \<Longrightarrow>
   \<not> isArray (js_prop target k) \<Longrightarrow>
   deepmerge (or_else (js_prop target k) (JObj [])) (JObj kvs) combine (k = ''rules'') = Inr (own dst' k)"
proof (induction src arbitrary: dst)
  case Nil
  then show ?case by simp
next
  case (Cons p src)
  obtain key w where p: "p = (key, w)" by (cases p)
  show ?case
  proof (cases "key = k")
    case True
    with Cons.prems(2,3) p have w: "w = JObj kvs" and nk: "k \<notin> fst ` set src"
      by (auto simp: image_iff)
    with Cons.prems(1,4,5) p True w obtain m where
      m: "deepmerge (or_else (js_prop target k) (JObj [])) (JObj kvs) combine (k = ''rules'') = Inr m"
      and r: "merge_keys target src (AList.update k m dst) combine isRule = Inr dst'"
      by (auto simp: js_get_def split: sum.splits if_splits)
    from merge_keys_other[OF r nk] m show ?thesis by (simp add: own_update)
  next
    case False
    with Cons.prems(2,3) p have "distinct (map fst src)" "(k, JObj kvs) \<in> set src" by auto
    moreover from Cons.prems(1) p obtain m where
      "merge_keys target src (AList.update key m dst) combine isRule = Inr dst'"
      by (auto split: sum.splits if_splits)
    ultimately show ?thesis using Cons.IH Cons.prems(4,5) by blast
  qed
qed

lemma deepmerge_objects:
  "deepmerge (JObj t) (JObj s) combine isRule = Inr r \<Longrightarrow>
   \<exists>dst. r = JObj dst \<and> merge_keys (JObj t) s t combine isRule = Inr dst"
  by (auto simp: deepmerge.simps split: sum.splits)


subsection \<open>Environments\<close>

text \<open>Rewrite rules that evaluate the model on a concrete input.\<close>

lemmas js_eval =
  js_get_def own_def or_else_def entries_of_def object_assign_def index_entries_def chars_of_def
  arr_set_def Let_def deepmerge.simps merge_array_loop.simps merge_def

text \<open>
  C8, amended.  For a config whose \<open>env\<close> is an object, empty or not (an array is one),
  \<open>applyEnvironments(config)\<close> is \<open>merge(createEnvironmentConfig(config.env), config)\<close>;
  for a config whose \<open>env\<close> is absent, \<open>null\<close> or not an object it is the config,
  unchanged.  In the merge the environments are the base and the explicit values of the
  config win: a global that the config sets to a value that is not an object has that value
  in the result.
\<close>

theorem applyEnvironments_merges:
  assumes "js_get config ''env'' = Inr env"
  shows "(js_typeof env = ''object'' \<and> env \<noteq> JNull \<longrightarrow>
            applyEnvironments w config = merge (createEnvironmentConfig w env) config)
    \<and> (js_typeof env \<noteq> ''object'' \<or> env = JNull \<longrightarrow> applyEnvironments w config = Inr config)
    \<and> (\<forall>ckvs explicit name v result.
          js_typeof env = ''object'' \<and> env \<noteq> JNull
          \<and> config = JObj ckvs \<and> distinct (map fst ckvs)
          \<and> (''globals'', JObj explicit) \<in> set ckvs \<and> distinct (map fst explicit)
          \<and> (name, v) \<in> set explicit \<and> js_typeof v \<noteq> ''object'' \<and> name \<noteq> ''overrides''
          \<and> \<not> isArray (js_prop (js_prop (createEnvironmentConfig w env) ''globals'') name)
          \<and> applyEnvironments w config = Inr result
          \<longrightarrow> js_prop (js_prop result ''globals'') name = v)"
proof (intro conjI allI impI)
  assume "js_typeof env = ''object'' \<and> env \<noteq> JNull"
  then have "truthy env" by (cases env) auto
  with assms \<open>js_typeof env = ''object'' \<and> env \<noteq> JNull\<close>
  show "applyEnvironments w config = merge (createEnvironmentConfig w env) config"
    by (simp add: applyEnvironments_def)
next
  assume "js_typeof env \<noteq> ''object'' \<or> env = JNull"
  with assms show "applyEnvironments w config = Inr config"
    by (auto simp: applyEnvironments_def)
next
  fix ckvs explicit name v result
  assume a: "js_typeof env = ''object'' \<and> env \<noteq> JNull
          \<and> config = JObj ckvs \<and> distinct (map fst ckvs)
          \<and> (''globals'', JObj explicit) \<in> set ckvs \<and> distinct (map fst explicit)
          \<and> (name, v) \<in> set explicit \<and> js_typeof v \<noteq> ''object'' \<and> name \<noteq> ''overrides''
          \<and> \<not> isArray (js_prop (js_prop (createEnvironmentConfig w env) ''globals'') name)
          \<and> applyEnvironments w config = Inr result"
  then have t: "truthy env" by (cases env) auto
  then obtain g p where E: "createEnvironmentConfig w env
        = JObj [(''globals'', JObj g), (''env'', env), (''rules'', JObj []), (''parserOptions'', JObj p)]"
    by (simp add: createEnvironmentConfig_def Let_def)
  let ?E = "[(''globals'', JObj g), (''env'', env), (''rules'', JObj []), (''parserOptions'', JObj p)]"
  from a have o: "js_typeof env = ''object''" and c: "config = JObj ckvs"
    and ar: "applyEnvironments w config = Inr result" by blast+
  from assms t o have "applyEnvironments w config = merge (createEnvironmentConfig w env) config"
    by (simp add: applyEnvironments_def)
  with ar have "merge (createEnvironmentConfig w env) config = Inr result" by simp
  then have "deepmerge (JObj ?E) (JObj ckvs) False False = Inr result"
    unfolding E c merge_def .
  from deepmerge_objects[OF this] obtain dst where
    r: "result = JObj dst" and mk: "merge_keys (JObj ?E) ckvs ?E False False = Inr dst"
    by blast
  from a have "distinct (map fst ckvs)" "(''globals'', JObj explicit) \<in> set ckvs" by blast+
  from merge_keys_object[OF mk this]
  have "deepmerge (JObj g) (JObj explicit) False False = Inr (own dst ''globals'')"
    by (simp add: own_def or_else_def)
  from deepmerge_objects[OF this] obtain gdst where
    gr: "own dst ''globals'' = JObj gdst" and gmk: "merge_keys (JObj g) explicit g False False = Inr gdst"
    by blast
  from a have "\<not> isArray (js_prop (js_prop (createEnvironmentConfig w env) ''globals'') name)"
    by blast
  then have "\<not> isArray (js_prop (JObj g) name)"
    unfolding E by (simp add: own_def)
  moreover from a have "distinct (map fst explicit)" "(name, v) \<in> set explicit"
    "js_typeof v \<noteq> ''object''" "name \<noteq> ''overrides''"
    by blast+
  ultimately have "own gdst name = v"
    using merge_keys_scalar[OF gmk] by blast
  with r gr show "js_prop (js_prop result ''globals'') name = v" by simp
qed


theorem applyEnvironments_merges_witness:
  "js_get (JObj [(''env'', JObj [(''browser'', JBool True)]), (''globals'', JObj [(''window'', JBool True)])]) ''env''
     = Inr (JObj [(''browser'', JBool True)])
   \<and> applyEnvironments browser_world
        (JObj [(''env'', JObj [(''browser'', JBool True)]), (''globals'', JObj [(''window'', JBool True)])])
      = Inr (JObj [(''globals'', JObj [(''window'', JBool True), (''document'', JBool False)]),
                   (''env'', JObj [(''browser'', JBool True)]),
                   (''rules'', JObj []), (''parserOptions'', JObj [])])
   \<and> js_get (JObj [(''rules'', JObj [])]) ''env'' = Inr JUndefined
   \<and> applyEnvironments browser_world (JObj [(''rules'', JObj [])]) = Inr (JObj [(''rules'', JObj [])])"
proof -
  let ?c = "JObj [(''env'', JObj [(''browser'', JBool True)]), (''globals'', JObj [(''window'', JBool True)])]"
  have e: "js_get ?c ''env'' = Inr (JObj [(''browser'', JBool True)])"
    by (simp add: js_get_def own_def)
  have u: "js_get (JObj [(''rules'', JObj [])]) ''env'' = Inr JUndefined"
    by (simp add: js_get_def own_def)
  have m: "merge (createEnvironmentConfig browser_world (JObj [(''browser'', JBool True)])) ?c
           = Inr (JObj [(''globals'', JObj [(''window'', JBool True), (''document'', JBool False)]),
                   (''env'', JObj [(''browser'', JBool True)]),
                   (''rules'', JObj []), (''parserOptions'', JObj [])])"
    by (simp add: createEnvironmentConfig_def add_environment_def browser_world_def empty_world_def
        js_eval)
  have a: "applyEnvironments browser_world ?c
       = merge (createEnvironmentConfig browser_world (JObj [(''browser'', JBool True)])) ?c"
    using applyEnvironments_merges[OF e, of browser_world, THEN conjunct1] by simp
  have b: "applyEnvironments browser_world (JObj [(''rules'', JObj [])]) = Inr (JObj [(''rules'', JObj [])])"
    using applyEnvironments_merges[OF u, of browser_world, THEN conjunct2, THEN conjunct1] by simp
  show ?thesis
    unfolding a m b e u by simp
qed

text \<open>
  The claim as stated fails on an empty \<open>env\<close>: the config comes back with the keys of
  the empty environment config added.
\<close>

theorem applyEnvironments_empty_env_counterexample:
  "js_get (JObj [(''env'', JObj [])]) ''env'' = Inr (JObj [])
   \<and> applyEnvironments empty_world (JObj [(''env'', JObj [])])
       = Inr (JObj [(''globals'', JObj []), (''env'', JObj []), (''rules'', JObj []),
                    (''parserOptions'', JObj [])])
   \<and> JObj [(''globals'', JObj []), (''env'', JObj []), (''rules'', JObj []), (''parserOptions'', JObj [])]
       \<noteq> JObj [(''env'', JObj [])]"
  by (simp add: applyEnvironments_def createEnvironmentConfig_def js_eval)

subsection \<open>The partial-merge cache\<close>

text \<open>
  A merge returns an array or an object, so what \<open>getConfigFromVector\<close> folds is true in a
  condition.  The fold writes one entry, under the key of the whole vector; the first loop
  returns the entry of the longest cached prefix.
\<close>

lemma deepmerge_shape:
  "deepmerge target src combine isRule = Inr m \<Longrightarrow> (\<exists>xs. m = JArr xs) \<or> (\<exists>kvs. m = JObj kvs)"
  by (subst (asm) deepmerge.simps) (auto simp: Let_def split: if_splits sum.splits)

lemma strip_keys_shape:
  "(\<exists>xs. m = JArr xs) \<or> (\<exists>kvs. m = JObj kvs) \<Longrightarrow>
   (\<exists>xs. strip_keys m = JArr xs) \<or> (\<exists>kvs. strip_keys m = JObj kvs)"
  by (auto simp: strip_keys_def)

lemma shape_truthy: "(\<exists>xs. m = JArr xs) \<or> (\<exists>kvs. m = JObj kvs) \<Longrightarrow> truthy m"
  by auto

lemma getConfig_token_setMergedVectorConfig [simp]:
  "getConfig_token (setMergedVectorConfig c vector config) key = getConfig_token c key"
  by (simp add: getConfig_token_def setMergedVectorConfig_def cache_getConfig_def split: jsval.splits)

lemma setMergedVectorConfig_twice [simp]:
  "setMergedVectorConfig (setMergedVectorConfig c vector x) vector y = setMergedVectorConfig c vector y"
  by (simp add: setMergedVectorConfig_def)

lemma fold_tokens_writes_full_key:
  "fold_tokens c vector tokens config subConfigs = Inr (config', c') \<Longrightarrow>
   (tokens = [] \<longrightarrow> config' = config \<and> c' = c)
   \<and> (tokens \<noteq> [] \<longrightarrow> c' = setMergedVectorConfig c vector config' \<and> truthy config')"
proof (induction tokens arbitrary: c config subConfigs)
  case Nil
  then show ?case by simp
next
  case (Cons configKey rest)
  from Cons.prems obtain shallowConfig subConfigs' merged where
    m: "merge config shallowConfig = Inr merged"
    and r: "fold_tokens (setMergedVectorConfig c vector (strip_keys merged)) vector rest
              (strip_keys merged) subConfigs' = Inr (config', c')"
    by (auto simp: Let_def split: sum.splits if_splits prod.splits)
  from m have "truthy (strip_keys merged)"
    unfolding merge_def by (intro shape_truthy strip_keys_shape) (rule deepmerge_shape)
  with Cons.IH[OF r] show ?case by (cases rest) auto
qed

lemma probe_cases:
  "probe c v = (cfg, i) \<Longrightarrow>
   (\<not> truthy cfg \<and> i = - 1)
   \<or> (truthy cfg \<and> 0 \<le> i \<and> i < int (length v)
       \<and> cfg = getMergedVectorConfig c (take (nat (i + 1)) v))"
proof (induction c v arbitrary: cfg i rule: probe.induct)
  case (1 c subvector)
  show ?case
  proof (cases "subvector = []")
    case True
    with "1.prems" show ?thesis by (simp add: probe.simps)
  next
    case False
    show ?thesis
    proof (cases "truthy (getMergedVectorConfig c subvector)")
      case True
      with False "1.prems" show ?thesis
        by (subst (asm) probe.simps) (auto simp: Let_def)
    next
      case nt: False
      show ?thesis
      proof (cases "butlast subvector = []")
        case True
        with False nt "1.prems" show ?thesis
          by (subst (asm) probe.simps) (auto simp: Let_def)
      next
        case nb: False
        with False nt "1.prems" have p: "probe c (butlast subvector) = (cfg, i)"
          by (subst (asm) probe.simps) (auto simp: Let_def)
        from "1.IH"[OF False refl nt nb p]
        consider "\<not> truthy cfg \<and> i = - 1"
          | "truthy cfg \<and> 0 \<le> i \<and> i < int (length (butlast subvector))
             \<and> cfg = getMergedVectorConfig c (take (nat (i + 1)) (butlast subvector))"
          by blast
        then show ?thesis
        proof cases
          case 1
          then show ?thesis by simp
        next
          case 2
          then have "i < int (length subvector - 1)" by simp
          moreover from False have "0 < length subvector" by simp
          ultimately have "nat (i + 1) < length subvector" by linarith
          then have "take (nat (i + 1)) (butlast subvector) = take (nat (i + 1)) subvector"
            by (rule take_butlast)
          moreover have "i < int (length subvector)"
            using \<open>nat (i + 1) < length subvector\<close> by linarith
          ultimately show ?thesis using 2 by auto
        qed
      qed
    qed
  qed
qed

lemma probe_hit:
  "v \<noteq> [] \<Longrightarrow> truthy (getMergedVectorConfig c v) \<Longrightarrow>
   probe c v = (getMergedVectorConfig c v, int (length v) - 1)"
  by (subst probe.simps) (simp add: Let_def)

lemmas cache_eval =
  getMergedVectorConfig_def setMergedVectorConfig_def getMergedConfig_def setMergedConfig_def
  cache_getConfig_def cache_setConfig_def map_get_def hash_def js_join_def getConfig_token_def
  strip_keys_def probe.simps getConfigFromVector_def

lemma nested_run:
  "getConfigFromVector nested_cache nested_vector
     = Inr (nested_config, setMergedVectorConfig nested_cache nested_vector nested_config)"
  by (simp add: nested_cache_def nested_vector_def nested_config_def plain_cache_def plain_base_def
      cache_eval js_eval)

text \<open>
  C1.  The code does not do what the claim says.  Every round of the fold calls
  \<open>setMergedVectorConfig(vector, config)\<close> with the whole vector, not with the prefix
  consumed so far.  On the vector of three sources below, with only the base entry cached
  before, the call leaves an entry for the whole vector and none for the prefix of two
  tokens.
\<close>

theorem getConfigFromVector_misses_prefixes:
  "getConfigFromVector nested_cache nested_vector
     = Inr (nested_config, setMergedVectorConfig nested_cache nested_vector nested_config)
   \<and> mergedVectorCache (setMergedVectorConfig nested_cache nested_vector nested_config)
        (hash (take 2 nested_vector)) = None
   \<and> mergedVectorCache (setMergedVectorConfig nested_cache nested_vector nested_config)
        (hash nested_vector) = Some nested_config"
  using nested_run
  by (simp add: nested_cache_def nested_vector_def plain_cache_def cache_eval)

text \<open>
  C10, amended.  For every vector that is not empty, after \<open>getConfigFromVector(v)\<close> has
  returned a config, the entry of the partial-merge cache under the whole vector is that
  config; the call has changed the cache at most by that entry; and a second call on the
  cache as it is then returns the same config from the first probe, leaving the cache as it
  is.
\<close>

theorem getConfigFromVector_caches_full_vector:
  assumes "vector \<noteq> []"
    and "getConfigFromVector c vector = Inr (config, c')"
  shows "getMergedVectorConfig c' vector = config
    \<and> (c' = c \<or> c' = setMergedVectorConfig c vector config)
    \<and> getConfigFromVector c' vector = Inr (config, c')"
proof -
  obtain cfg i where p: "probe c vector = (cfg, i)" by (cases "probe c vector")
  have main: "getMergedVectorConfig c' vector = config \<and> truthy config
      \<and> (c' = c \<or> c' = setMergedVectorConfig c vector config)"
  proof (cases "truthy cfg \<and> i = int (length vector) - 1")
    case True
    with probe_cases[OF p] assms(1) have "cfg = getMergedVectorConfig c vector"
      by (auto simp: nat_diff_distrib')
    moreover from assms(2) p True have "config = cfg" "c' = c"
      by (simp_all add: getConfigFromVector_def)
    ultimately show ?thesis using True by simp
  next
    case False
    with probe_cases[OF p] assms(1) have d: "drop (nat (i + 1)) vector \<noteq> []"
      by auto
    from assms(2) p False obtain start subConfigs where
      f: "fold_tokens c vector (drop (nat (i + 1)) vector) start subConfigs = Inr (config, c')"
      by (auto simp: getConfigFromVector_def split: if_splits sum.splits)
    from fold_tokens_writes_full_key[OF f] d
    have "c' = setMergedVectorConfig c vector config" "truthy config" by simp_all
    then show ?thesis
      by (simp add: getMergedVectorConfig_def setMergedVectorConfig_def map_get_def)
  qed
  then have "probe c' vector = (config, int (length vector) - 1)"
    using probe_hit[OF assms(1), of c'] by simp
  with main show ?thesis
    by (simp add: getConfigFromVector_def)
qed


theorem getConfigFromVector_caches_full_vector_witness:
  "nested_vector \<noteq> []
   \<and> getConfigFromVector nested_cache nested_vector
       = Inr (nested_config, setMergedVectorConfig nested_cache nested_vector nested_config)
   \<and> getMergedVectorConfig (setMergedVectorConfig nested_cache nested_vector nested_config)
        nested_vector = nested_config
   \<and> getConfigFromVector (setMergedVectorConfig nested_cache nested_vector nested_config)
        nested_vector
       = Inr (nested_config, setMergedVectorConfig nested_cache nested_vector nested_config)"
proof -
  have n: "nested_vector \<noteq> []" by (simp add: nested_vector_def)
  from getConfigFromVector_caches_full_vector[OF n nested_run] n nested_run
  show ?thesis by blast
qed

text \<open>
  The claim as stated fails on the empty vector: no probe runs and no token is folded, so
  the call returns the empty object and writes nothing, while the entry under the hash of
  the empty vector (the empty string) is the base config that the constructor stored.
\<close>

theorem getConfigFromVector_empty_vector_counterexample:
  "getConfigFromVector plain_cache [] = Inr (JObj [], plain_cache)
   \<and> getMergedVectorConfig plain_cache [] = plain_base
   \<and> plain_base \<noteq> JObj []"
  by (simp add: plain_cache_def plain_base_def cache_eval)

subsection \<open>The root flag\<close>

lemmas config_eval =
  getLocalConfigHierarchy_def getHierarchyLocalConfigs_def setHierarchyLocalConfigs_def
  js_slice0_def loadCached_def getPersonalConfig_def hasRules_def

text \<open>
  C4.  The code does not do what the claim says.  The loop asks the hierarchy cache about
  the directory of a config file before it tests whether the file lies above the root, and
  a hit ends the walk with the cached list in front.  On a fresh cache the hierarchy of
  \<open>/a/b\<close> is the configs of \<open>/a\<close> and \<open>/a/b\<close>; after a walk from \<open>/x\<close>, which
  caches the list of \<open>/\<close>, it starts with the config of \<open>/\<close>, above the root.
\<close>

theorem root_truncation_broken_by_cache:
  "map_sum id fst (getLocalConfigHierarchy root_world plain_config plain_cache ''/a/b'')
     = Inr [a_config, b_config]
   \<and> hierarchy_after root_world plain_config plain_cache ''/x'' ''/a/b''
     = Inr [top_config, a_config, b_config]"
  by (simp add: hierarchy_after_def root_world_def empty_world_def plain_config_def plain_cache_def
      top_config_def x_config_def a_config_def b_config_def plain_base_def no_options_def
      config_eval cache_eval js_eval)

subsection \<open>The cache of final configs\<close>

text \<open>
  Nothing that computes a vector touches the table of final configs, and
  \<open>getConfigFromVector\<close> does not either.  A call of \<open>getConfig\<close> that returns leaves
  its result in the table under the hash of its vector, the result is an object or an array,
  and it changes no entry that was true in a condition before.
\<close>

lemma loadCached_mergedCache:
  "mergedCache (snd (loadCached w c p)) = mergedCache c"
  by (simp add: loadCached_def cache_setConfig_def Let_def)

lemma walk_mergedCache:
  "walk w pcp files configs searched rootPath c = (configs', searched', cache, c') \<Longrightarrow>
   mergedCache c' = mergedCache c"
proof (induction files arbitrary: configs searched rootPath c)
  case Nil
  then show ?case by simp
next
  case (Cons f files)
  show ?case
  proof (cases "getHierarchyLocalConfigs c (path_dirname w f)")
    case (Some cached)
    with Cons.prems show ?thesis by simp
  next
    case None
    obtain lc c1 where l: "loadCached w c f = (lc, c1)" by (cases "loadCached w c f")
    then have m: "mergedCache c1 = mergedCache c"
      using loadCached_mergedCache[of w c f] by simp
    from Cons.prems None l consider
        "walk w pcp files configs searched rootPath c = (configs', searched', cache, c')"
      | "walk w pcp files configs searched rootPath c1 = (configs', searched', cache, c')"
      | cs ss rp where "walk w pcp files cs ss rp c1 = (configs', searched', cache, c')"
      by (auto simp: Let_def split: if_splits)
    then show ?thesis
      using Cons.IH m by cases auto
  qed
qed

lemma setHierarchyLocalConfigs_from_mergedCache:
  "mergedCache (setHierarchyLocalConfigs_from i c ds configs) = mergedCache c"
  by (induction ds arbitrary: i c) (simp_all add: Let_def)

lemma getPersonalConfig_mergedCache:
  "getPersonalConfig w cfg c = (p, cfg', c') \<Longrightarrow> mergedCache c' = mergedCache c"
  by (auto simp: getPersonalConfig_def Let_def loadCached_mergedCache
      split: option.splits if_splits)

lemma getLocalConfigHierarchy_mergedCache:
  assumes "getLocalConfigHierarchy w cfg c directory = Inr (h, cfg', c')"
  shows "mergedCache c' = mergedCache c"
proof -
  obtain configs searched cache c1 where
    wk: "walk w (getFilenameForDirectory w (options_cwd (options cfg)))
           (findAllInDirectoryAndParents w directory) [] [] None c = (configs, searched, cache, c1)"
    by (metis prod_cases4)
  obtain p cfgp c2 where gp: "getPersonalConfig w cfg c1 = (p, cfgp, c2)"
    by (metis prod_cases3)
  from walk_mergedCache[OF wk] getPersonalConfig_mergedCache[OF gp]
  have "mergedCache c1 = mergedCache c" "mergedCache c2 = mergedCache c" by simp_all
  with assms wk gp show ?thesis
    by (auto simp: getLocalConfigHierarchy_def Let_def setHierarchyLocalConfigs_def
        setHierarchyLocalConfigs_from_mergedCache split: if_splits)
qed

lemma getConfigVector_mergedCache:
  "getConfigVector w cfg c filePath = Inr (vector, cfg', c') \<Longrightarrow> mergedCache c' = mergedCache c"
  by (auto simp: getConfigVector_def getConfigHierarchy_def Let_def
      dest: getLocalConfigHierarchy_mergedCache split: sum.splits if_splits)


lemma getConfigFromVector_mergedCache:
  assumes "getConfigFromVector c vector = Inr (config, c')"
  shows "mergedCache c' = mergedCache c"
proof -
  obtain cfg i where p: "probe c vector = (cfg, i)" by (cases "probe c vector")
  from assms p consider "c' = c"
    | tokens start subConfigs where "fold_tokens c vector tokens start subConfigs = Inr (config, c')"
    by (auto simp: getConfigFromVector_def split: if_splits sum.splits)
  then show ?thesis
  proof cases
    case 1
    then show ?thesis by simp
  next
    case 2
    from fold_tokens_writes_full_key[OF 2] show ?thesis
      by (cases "tokens = []") (simp_all add: setMergedVectorConfig_def)
  qed
qed

lemma merge_truthy: "merge target src = Inr m \<Longrightarrow> truthy m"
  unfolding merge_def by (rule shape_truthy) (rule deepmerge_shape)

lemma applyEnvironments_truthy:
  "applyEnvironments w config = Inr r \<Longrightarrow> truthy config \<Longrightarrow> truthy r"
  by (auto simp: applyEnvironments_def merge_truthy split: sum.splits if_splits)

lemma getConfig_result:
  assumes "getConfig w cfg c filePath = Inr (r, cfg', c')"
  shows "\<exists>vector c1. getConfigVector w cfg c filePath = Inr (vector, cfg', c1)
           \<and> truthy r \<and> getMergedConfig c' vector = r
           \<and> (\<forall>k. truthy (map_get (mergedCache c) k) \<longrightarrow> mergedCache c' k = mergedCache c k)"
proof -
  from assms obtain vector c1 where
    v: "getConfigVector w cfg c filePath = Inr (vector, cfg', c1)"
    by (auto simp: getConfig_def split: sum.splits if_splits)
  from getConfigVector_mergedCache[OF v] have m1: "mergedCache c1 = mergedCache c" .
  show ?thesis
  proof (cases "truthy (getMergedConfig c1 vector)")
    case True
    with assms v have "r = getMergedConfig c1 vector" "c' = c1"
      by (auto simp: getConfig_def)
    with True v m1 show ?thesis by auto
  next
    case False
    with assms v obtain config1 c2 config2 config3 where
      g: "getConfigFromVector c1 vector = Inr (config1, c2)"
      and m2: "merge config1 (cliConfig cfg') = Inr config2"
      and m3: "(if truthy (parser cfg') \<or> \<not> truthy (js_prop config2 ''parser'')
                then merge config2 (JObj [(''parser'', parser cfg')]) else Inr config2) = Inr config3"
      and m4: "(if truthy (js_prop config3 ''env'') then applyEnvironments w config3
                else Inr config3) = Inr r"
      and c': "c' = setMergedConfig c2 vector r"
      by (auto simp: getConfig_def split: sum.splits)
    from m2 have "truthy config2" by (rule merge_truthy)
    with m3 have "truthy config3" by (auto simp: merge_truthy split: if_splits)
    with m4 have t: "truthy r" by (auto simp: applyEnvironments_truthy split: if_splits)
    from getConfigFromVector_mergedCache[OF g] m1 have m: "mergedCache c2 = mergedCache c" by simp
    have "getMergedConfig c' vector = r"
      by (simp add: c' getMergedConfig_def setMergedConfig_def map_get_def)
    moreover have "mergedCache c' k = mergedCache c k" if "truthy (map_get (mergedCache c) k)" for k
    proof -
      from False m1 have "\<not> truthy (map_get (mergedCache c) (hash vector))"
        by (simp add: getMergedConfig_def)
      with that have "k \<noteq> hash vector" by auto
      then show ?thesis by (simp add: c' setMergedConfig_def m)
    qed
    ultimately show ?thesis using v t by blast
  qed
qed

lemma getConfig_all_keeps:
  "getConfig_all w cfg c files = Inr (rs, cfg', c') \<Longrightarrow> truthy (map_get (mergedCache c) k) \<Longrightarrow>
   mergedCache c' k = mergedCache c k"
proof (induction files arbitrary: cfg c rs)
  case Nil
  then show ?case by simp
next
  case (Cons f files)
  from Cons.prems(1) obtain r cfg1 c1 rs' where
    g: "getConfig w cfg c f = Inr (r, cfg1, c1)"
    and a: "getConfig_all w cfg1 c1 files = Inr (rs', cfg', c')"
    by (auto split: sum.splits)
  from getConfig_result[OF g] Cons.prems(2) have k: "mergedCache c1 k = mergedCache c k" by blast
  with Cons.prems(2) have "truthy (map_get (mergedCache c1) k)" by (simp add: map_get_def)
  from Cons.IH[OF a this] k show ?case by simp
qed

text \<open>
  C2.  Two calls of \<open>getConfig\<close> on the same \<open>Config\<close>, with any number of calls
  between them, whose vectors are the same sequence of tokens return the same config: the
  second call finds the result of the first in the table of final configs.
\<close>

theorem same_vector_same_config:
  assumes "getConfig w cfg c file1 = Inr (config1, cfg1, c1)"
    and "getConfig_all w cfg1 c1 between = Inr (configs, cfg2, c2)"
    and "getConfig w cfg2 c2 file2 = Inr (config2, cfg3, c3)"
    and "getConfigVector w cfg c file1 = Inr (vector, cfg1', c1')"
    and "getConfigVector w cfg2 c2 file2 = Inr (vector, cfg3', c3')"
  shows "config2 = config1"
proof -
  from getConfig_result[OF assms(1)] assms(4)
  have t: "truthy config1" and h: "getMergedConfig c1 vector = config1" by auto
  then have "truthy (map_get (mergedCache c1) (hash vector))"
    by (simp add: getMergedConfig_def)
  from getConfig_all_keeps[OF assms(2) this] h
  have "getMergedConfig c2 vector = config1" by (simp add: getMergedConfig_def map_get_def)
  with getConfigVector_mergedCache[OF assms(5)]
  have "getMergedConfig c3' vector = config1" by (simp add: getMergedConfig_def)
  with assms(3,5) t show ?thesis by (simp add: getConfig_def)
qed

text \<open>Rewrite rules that run a resolution on the example project.\<close>

lemmas resolve_eval =
  getConfig_def getConfigVector_def getConfigHierarchy_def config_tokens_def pathMatchesGlobs_def
  applyEnvironments_def createEnvironmentConfig_def createEmptyConfig_def add_environment_def

lemmas project_eval =
  project_world_def project_config_def empty_world_def plain_config_def plain_cache_def
  plain_base_def no_options_def

lemma project_first:
  "getConfig project_world plain_config plain_cache (Some ''/proj/src/a.js'') = Inr after_first"
proof -
  have "\<not> isl (getConfig project_world plain_config plain_cache (Some ''/proj/src/a.js''))"
    by (simp add: project_eval resolve_eval config_eval cache_eval js_eval)
  then show ?thesis
    by (simp add: after_first_def)
qed

lemma project_vectors:
  "map_sum id fst (getConfigVector project_world plain_config plain_cache (Some ''/proj/src/a.js''))
     = Inr [JStr [], JStr ''/proj/.eslintrc'']"
  "map_sum id fst (getConfigVector project_world (fst (snd after_first)) (snd (snd after_first))
                     (Some ''/proj/src/b.js''))
     = Inr [JStr [], JStr ''/proj/.eslintrc'']"
  "\<not> isl (getConfig project_world (fst (snd after_first)) (snd (snd after_first))
            (Some ''/proj/src/b.js''))"
  by (simp_all add: after_first_def project_eval resolve_eval config_eval cache_eval js_eval)

theorem same_vector_same_config_witness:
  "getConfig project_world plain_config plain_cache (Some ''/proj/src/a.js'') = Inr after_first
   \<and> map_sum id fst (getConfigVector project_world plain_config plain_cache (Some ''/proj/src/a.js''))
       = Inr [JStr [], JStr ''/proj/.eslintrc'']
   \<and> map_sum id fst (getConfigVector project_world (fst (snd after_first)) (snd (snd after_first))
                       (Some ''/proj/src/b.js''))
       = Inr [JStr [], JStr ''/proj/.eslintrc'']
   \<and> map_sum id fst (getConfig project_world (fst (snd after_first)) (snd (snd after_first))
                       (Some ''/proj/src/b.js''))
       = Inr (fst after_first)"
proof -
  obtain config2 cfg3 c3
    where g2: "getConfig project_world (fst (snd after_first)) (snd (snd after_first))
                 (Some ''/proj/src/b.js'') = Inr (config2, cfg3, c3)"
    using project_vectors(3)
    by (cases "getConfig project_world (fst (snd after_first)) (snd (snd after_first))
                 (Some ''/proj/src/b.js'')") auto
  obtain cfg1' c1'
    where v1: "getConfigVector project_world plain_config plain_cache (Some ''/proj/src/a.js'')
                 = Inr ([JStr [], JStr ''/proj/.eslintrc''], cfg1', c1')"
    using project_vectors(1)
    by (cases "getConfigVector project_world plain_config plain_cache (Some ''/proj/src/a.js'')")
      auto
  obtain cfg3' c3'
    where v2: "getConfigVector project_world (fst (snd after_first)) (snd (snd after_first))
                 (Some ''/proj/src/b.js'')
                 = Inr ([JStr [], JStr ''/proj/.eslintrc''], cfg3', c3')"
    using project_vectors(2)
    by (cases "getConfigVector project_world (fst (snd after_first)) (snd (snd after_first))
                 (Some ''/proj/src/b.js'')") auto
  have g1: "getConfig project_world plain_config plain_cache (Some ''/proj/src/a.js'')
              = Inr (fst after_first, fst (snd after_first), snd (snd after_first))"
    using project_first by simp
  have between: "getConfig_all project_world (fst (snd after_first)) (snd (snd after_first)) []
                   = Inr ([], fst (snd after_first), snd (snd after_first))"
    by simp
  have "config2 = fst after_first"
    using same_vector_same_config [OF g1 between g2 v1 v2] .
  with g2 project_first project_vectors(1,2) show ?thesis
    by simp
qed

subsection \<open>The keys of a resolved config\<close>



































end
